theory Spec2Isabelle
  imports Complex_Main "HOL-Library.Sublist" "HOL-Library.AList"
begin

section \<open>JavaScript values used by the test runner\<close>

text \<open>
  Strings are lists of characters; \<open>length\<close> plays the role of JavaScript's \<open>.length\<close>.
  A JavaScript number is modelled as an exact real (rounding of IEEE doubles is not
  modelled), extended by \<open>NaN\<close>, which arithmetic on \<open>undefined\<close> produces.
\<close>

datatype jsnum = Num real | NaN

datatype js_error =
    TypeError string
  | RateLimitExceeded
  | RateLimitExceededAfter nat
  | TestNotFound
  | StorageError
  | UnmodelledRegExp string

text \<open>
  Reading \<open>obj[key]\<close> on an object literal first looks at the object's own properties and
  then at \<open>Object.prototype\<close>. The inherited names are all functions (or, for
  \<open>__proto__\<close>, the prototype object), hence truthy, and have no data fields of their own.
\<close>

datatype 'a js_prop = Own 'a | Inherited | Undefined

definition object_prototype_keys :: "string list" where
  "object_prototype_keys =
     [''constructor'', ''__defineGetter__'', ''__defineSetter__'', ''hasOwnProperty'',
      ''__lookupGetter__'', ''__lookupSetter__'', ''isPrototypeOf'', ''propertyIsEnumerable'',
      ''toString'', ''valueOf'', ''__proto__'', ''toLocaleString'']"

definition js_get :: "(string \<times> 'a) list \<Rightarrow> string \<Rightarrow> 'a js_prop" where
  "js_get obj key =
     (case map_of obj key of
        Some v \<Rightarrow> Own v
      | None \<Rightarrow> if key \<in> set object_prototype_keys then Inherited else Undefined)"

section \<open>Pricing (src/lib/pricing.ts)\<close>

record model_pricing =
  inputPer1M :: real
  outputPer1M :: real

record provider_config =
  name :: string
  displayName :: string
  defaultModel :: string
  models :: "(string \<times> model_pricing) list"

definition price :: "real \<Rightarrow> real \<Rightarrow> model_pricing" where
  "price i out = \<lparr> inputPer1M = i, outputPer1M = out \<rparr>"

definition PROVIDER_CONFIGS :: "(string \<times> provider_config) list" where
  "PROVIDER_CONFIGS =
    [(''openai'', \<lparr> name = ''openai'', displayName = ''OpenAI'', defaultModel = ''gpt-4o'',
        models =
          [(''gpt-4o'', price 2.50 10.00),
           (''gpt-4o-mini'', price 0.15 0.60),
           (''gpt-4-turbo'', price 10.00 30.00),
           (''gpt-4'', price 30.00 60.00),
           (''gpt-3.5-turbo'', price 0.50 1.50),
           (''o1'', price 15.00 60.00),
           (''o1-mini'', price 3.00 12.00)] \<rparr>),
     (''anthropic'', \<lparr> name = ''anthropic'', displayName = ''Anthropic'',
        defaultModel = ''claude-sonnet-4-20250514'',
        models =
          [(''claude-sonnet-4-20250514'', price 3.00 15.00),
           (''claude-opus-4-20250514'', price 15.00 75.00),
           (''claude-3-5-sonnet-20241022'', price 3.00 15.00),
           (''claude-3-5-haiku-20241022'', price 0.80 4.00),
           (''claude-3-opus-20240229'', price 15.00 75.00),
           (''claude-3-sonnet-20240229'', price 3.00 15.00),
           (''claude-3-haiku-20240307'', price 0.25 1.25)] \<rparr>),
     (''google'', \<lparr> name = ''google'', displayName = ''Google Gemini'',
        defaultModel = ''gemini-1.5-pro'',
        models =
          [(''gemini-1.5-pro'', price 1.25 5.00),
           (''gemini-1.5-flash'', price 0.075 0.30),
           (''gemini-1.5-flash-8b'', price 0.0375 0.15),
           (''gemini-2.0-flash-exp'', price 0.10 0.40)] \<rparr>),
     (''deepseek'', \<lparr> name = ''deepseek'', displayName = ''DeepSeek'',
        defaultModel = ''deepseek-chat'',
        models =
          [(''deepseek-chat'', price 0.14 0.28),
           (''deepseek-reasoner'', price 0.55 2.19)] \<rparr>),
     (''local'', \<lparr> name = ''local'', displayName = ''Local/OpenAI-Compatible'',
        defaultModel = ''default'',
        models = [(''default'', price 0.00 0.00)] \<rparr>)]"

record cost_result =
  cost :: jsnum
  isEstimated :: bool

definition linear_cost :: "model_pricing \<Rightarrow> int \<Rightarrow> int \<Rightarrow> real" where
  "linear_cost p inputTokens outputTokens =
     (real_of_int inputTokens / 1000000) * inputPer1M p +
     (real_of_int outputTokens / 1000000) * outputPer1M p"

definition flat_cost :: "int \<Rightarrow> int \<Rightarrow> real" where
  "flat_cost inputTokens outputTokens = real_of_int (inputTokens + outputTokens) * 0.00001"

text \<open>
  \<open>calculateCost\<close>, branch by branch. \<open>!providerConfig\<close> is true only for \<open>undefined\<close>.
  For an inherited provider name \<open>providerConfig.models\<close> is \<open>undefined\<close> and indexing it
  raises a TypeError. For an inherited model name the pricing fields are \<open>undefined\<close> and
  the arithmetic yields \<open>NaN\<close>.
\<close>

definition calculateCost :: "string \<Rightarrow> string \<Rightarrow> int \<Rightarrow> int \<Rightarrow> js_error + cost_result" where
  "calculateCost provider model inputTokens outputTokens =
     (case js_get PROVIDER_CONFIGS provider of
        Undefined \<Rightarrow>
          Inr \<lparr> cost = Num (flat_cost inputTokens outputTokens), isEstimated = True \<rparr>
      | Inherited \<Rightarrow>
          Inl (TypeError (''Cannot read properties of undefined (reading '' @ [CHR 0x27] @ model
                 @ [CHR 0x27] @ '')''))
      | Own providerConfig \<Rightarrow>
          (case js_get (models providerConfig) model of
             Undefined \<Rightarrow>
               (case js_get (models providerConfig) (defaultModel providerConfig) of
                  Own defaultPricing \<Rightarrow>
                    Inr \<lparr> cost = Num (linear_cost defaultPricing inputTokens outputTokens),
                          isEstimated = True \<rparr>
                | Inherited \<Rightarrow> Inr \<lparr> cost = NaN, isEstimated = True \<rparr>
                | Undefined \<Rightarrow>
                    Inr \<lparr> cost = Num (flat_cost inputTokens outputTokens), isEstimated = True \<rparr>)
           | Inherited \<Rightarrow> Inr \<lparr> cost = NaN, isEstimated = False \<rparr>
           | Own modelPricing \<Rightarrow>
               Inr \<lparr> cost = Num (linear_cost modelPricing inputTokens outputTokens),
                     isEstimated = False \<rparr>))"

definition estimateTokenCount :: "string \<Rightarrow> int" where
  "estimateTokenCount text = (if text = [] then 0 else \<lceil>real (length text) / 4\<rceil>)"

section \<open>String replacement with a global regular expression\<close>

text \<open>
  \<open>String.prototype.replace(regex, replacement)\<close> with a \<open>g\<close> flag scans the subject
  from left to right; at each position the matcher either reports the length of the match
  that starts there or nothing. The regular expressions of this repository have no capture
  groups and never match the empty string, so a match of length 0 is treated as no match.
  A string replacement is not copied verbatim: \<open>$$\<close> stands for a dollar sign,
  \<open>$&\<close> for the matched text, \<open>$`\<close> for the subject before the match and
  \<open>$'\<close> for the subject after it; any other use of \<open>$\<close> is kept as it is.
\<close>

fun get_substitution :: "string \<Rightarrow> string \<Rightarrow> string \<Rightarrow> string \<Rightarrow> string" where
  "get_substitution matched preceding following [] = []"
| "get_substitution matched preceding following [c] = [c]"
| "get_substitution matched preceding following (c # d # r) =
     (if c = CHR ''$'' then
        (if d = CHR ''$'' then CHR ''$'' # get_substitution matched preceding following r
         else if d = CHR ''&'' then matched @ get_substitution matched preceding following r
         else if d = CHR 0x60 then preceding @ get_substitution matched preceding following r
         else if d = CHR 0x27 then following @ get_substitution matched preceding following r
         else c # get_substitution matched preceding following (d # r))
      else c # get_substitution matched preceding following (d # r))"

fun js_replace_all :: "(string \<Rightarrow> nat option) \<Rightarrow> string \<Rightarrow> string \<Rightarrow> string \<Rightarrow> string" where
  "js_replace_all m repl preceding [] = []"
| "js_replace_all m repl preceding (c # cs) =
     (case m (c # cs) of
        None \<Rightarrow> c # js_replace_all m repl (preceding @ [c]) cs
      | Some n \<Rightarrow>
          if 0 < n
          then get_substitution (take n (c # cs)) preceding (drop n (c # cs)) repl
                 @ js_replace_all m repl (preceding @ take n (c # cs)) (drop n (c # cs))
          else c # js_replace_all m repl (preceding @ [c]) cs)"

text \<open>The syntax characters of a pattern: \<open>. * + ? ^ $ { } ( ) | [ ] \\<close>.\<close>

definition backslash :: char where
  "backslash = CHR 0x5C"

definition regex_syntax_chars :: "char list" where
  "regex_syntax_chars = ''.*+?^${}()|[]'' @ [backslash]"

definition class_match :: "char list \<Rightarrow> string \<Rightarrow> nat option" where
  "class_match cls s = (case s of [] \<Rightarrow> None | c # _ \<Rightarrow> if c \<in> set cls then Some 1 else None)"

definition literal_match :: "string \<Rightarrow> string \<Rightarrow> nat option" where
  "literal_match lit s = (if prefix lit s then Some (length lit) else None)"

text \<open>
  \<open>new RegExp(source)\<close> for the sources this model covers: a sequence of ordinary
  characters, each matching itself, and of syntax characters escaped by a backslash.
  The result is the literal text such a pattern matches; \<open>None\<close> marks a source with
  unescaped syntax (wildcards, quantifiers, or a SyntaxError), which is not modelled.
\<close>

fun regexp_literal :: "string \<Rightarrow> string option" where
  "regexp_literal [] = Some []"
| "regexp_literal [c] = (if c \<in> set regex_syntax_chars then None else Some [c])"
| "regexp_literal (c # d # r) =
     (if c = backslash
      then (if d \<in> set regex_syntax_chars then map_option ((#) d) (regexp_literal r) else None)
      else if c \<in> set regex_syntax_chars then None
      else map_option ((#) c) (regexp_literal (d # r)))"

section \<open>Redaction (src/lib/encryption.ts)\<close>

definition REDACTED :: string where
  "REDACTED = ''[REDACTED]''"

definition escape_regexp :: "string \<Rightarrow> string" where
  "escape_regexp apiKey =
     js_replace_all (class_match regex_syntax_chars) [backslash, CHR ''$'', CHR ''&''] [] apiKey"

definition redactApiKey :: "string \<Rightarrow> string \<Rightarrow> js_error + string" where
  "redactApiKey text apiKey =
     (if apiKey = [] \<or> length apiKey < 8 then Inr text
      else
        let escaped = escape_regexp apiKey in
        case regexp_literal escaped of
          None \<Rightarrow> Inl (UnmodelledRegExp escaped)
        | Some lit \<Rightarrow> Inr (js_replace_all (literal_match lit) REDACTED [] text))"

section \<open>Prompt resolution (test-runner: substituteVariables)\<close>

text \<open>
  A \<open>Record<string, string>\<close> is the list of its entries in enumeration order.
  Assigning a key that is present overwrites its value in place; a new key is appended.
  The spread \<open>{ ...testVariables, ...variables }\<close> assigns the entries of both in turn.
\<close>

type_synonym js_record = "(string \<times> string) list"

definition js_spread :: "js_record \<Rightarrow> js_record \<Rightarrow> js_record" where
  "js_spread a b = foldl (\<lambda>acc kv. AList.update (fst kv) (snd kv) acc) [] (a @ b)"

text \<open>\<open>\s\<close> on 8-bit characters: space, tab, line feed, vertical tab, form feed,
  carriage return and the no-break space.\<close>

definition is_space :: "char \<Rightarrow> bool" where
  "is_space c = (c \<in> set [CHR 0x20, CHR 0x09, CHR 0x0A, CHR 0x0B, CHR 0x0C, CHR 0x0D, CHR 0xA0])"

text \<open>
  The pattern \<open>\{\{\s*KEY\s*\}\}\<close> at the start of \<open>s\<close>: after the two braces the
  first \<open>\s*\<close> takes as much white space as it can and gives it back one character
  at a time until the key and the rest of the pattern match.
\<close>

definition placeholder_tail :: "string \<Rightarrow> string \<Rightarrow> nat option" where
  "placeholder_tail lit r =
     (if prefix lit r then
        let r2 = drop (length lit) r; ws = takeWhile is_space r2
        in if prefix ''}}'' (drop (length ws) r2) then Some (length lit + length ws + 2) else None
      else None)"

definition placeholder_match :: "string \<Rightarrow> string \<Rightarrow> nat option" where
  "placeholder_match lit s =
     (if prefix ''{{'' s then
        let r = drop 2 s; k = length (takeWhile is_space r)
        in (case List.find (\<lambda>n. placeholder_tail lit (drop n r) \<noteq> None) (rev [0..<Suc k]) of
              None \<Rightarrow> None
            | Some n \<Rightarrow> map_option (\<lambda>l. 2 + n + l) (placeholder_tail lit (drop n r)))
      else None)"

fun substituteVariables :: "string \<Rightarrow> js_record \<Rightarrow> js_error + string" where
  "substituteVariables template [] = Inr template"
| "substituteVariables template ((key, v) # variables) =
     (case regexp_literal key of
        None \<Rightarrow> Inl (UnmodelledRegExp key)
      | Some lit \<Rightarrow>
          substituteVariables (js_replace_all (placeholder_match lit) v [] template) variables)"

section \<open>The store and the outside world\<close>

text \<open>
  The persistence client (\<open>./db\<close>), the system clock, the Node cipher and the provider
  adapters' network calls are outside the code under study. The store is a record of
  tables that the operations pass along; the clock, the cipher, the network and the
  output validator are functions of an environment, so every property below holds for
  whatever they return. Wall-clock fields (\<open>latencyMs\<close>, \<open>completedAt\<close>) are left out.
\<close>

record model_config =
  mc_provider :: string
  mc_model :: string
  mc_apiKeyId :: string

record api_key =
  ak_userId :: string
  ak_isActive :: bool
  ak_encryptedKey :: string
  ak_iv :: string
  ak_authTag :: string
  ak_baseUrl :: "string option"

record test_def =
  t_userId :: string
  t_basePrompt :: string
  t_variables :: js_record
  t_expectedContains :: "string option"
  t_jsonSchema :: "string option"

datatype run_status = Pending | Running | Completed | Failed | DryRun

record run =
  r_id :: string
  r_userId :: string
  r_testId :: "string option"
  r_apiKeyId :: string
  r_provider :: string
  r_model :: string
  r_prompt :: string
  r_inputVariables :: js_record
  r_status :: run_status
  r_batchId :: "string option"
  r_batchIndex :: "nat option"
  r_isDryRun :: bool
  r_output :: "string option"
  r_errorMessage :: "string option"
  r_inputTokens :: "int option"
  r_outputTokens :: "int option"
  r_totalTokens :: "int option"
  r_tokensEstimated :: bool
  r_estimatedCost :: "jsnum option"
  r_costEstimated :: bool
  r_passed :: "bool option"
  r_validationNotes :: "string option"

record run_result =
  rr_id :: string
  rr_status :: run_status
  rr_provider :: string
  rr_model :: string
  rr_output :: "string option"
  rr_errorMessage :: "string option"
  rr_inputTokens :: "int option"
  rr_outputTokens :: "int option"
  rr_estimatedCost :: "jsnum option"
  rr_passed :: "bool option"
  rr_validationNotes :: "string option"

record provider_response =
  pr_output :: string
  pr_inputTokens :: "int option"
  pr_outputTokens :: "int option"
  pr_tokensEstimated :: bool

record validation_result =
  v_passed :: bool
  v_notes :: string

text \<open>
  The world: the tables of the store, whether the store answers at all, the number of
  times the clock has been read, and two logs kept for the statements below: every
  status written to a run record, and every completion request sent to a provider.
\<close>

record world =
  storage_up :: bool
  rateLimits :: "string \<times> string \<Rightarrow> nat option"
  tests :: "string \<Rightarrow> test_def option"
  apiKeys :: "string \<Rightarrow> api_key option"
  runs :: "run list"
  next_id :: nat
  clock_reads :: nat
  status_log :: "(string \<times> run_status) list"
  adapter_log :: "(string \<times> string) list"

record env =
  clock :: "nat \<Rightarrow> string"
  new_batch_id :: string
  decrypt_outcome :: "string \<Rightarrow> string \<Rightarrow> string \<Rightarrow> string + string"
  complete_outcome :: "nat \<Rightarrow> string \<Rightarrow> string \<Rightarrow> string \<Rightarrow> string \<Rightarrow> string option
                         \<Rightarrow> string + provider_response"
  validateOutput :: "string \<Rightarrow> string option \<Rightarrow> string option \<Rightarrow> validation_result option"

section \<open>Rate limiting (src/lib/rate-limit.ts)\<close>

definition MAX_RUNS_PER_MINUTE :: nat where
  "MAX_RUNS_PER_MINUTE = 10"

record rate_check =
  allowed :: bool
  remaining :: nat

text \<open>
  Modelled from the spec: \<open>prisma.rateLimit.upsert\<close> belongs to the persistence client,
  which is not under src/. It creates the counter of \<open>(userId, windowKey)\<close> with count 1
  or increments it, atomically, and returns the stored count; it raises when the store
  does not answer.
\<close>

definition rateLimit_upsert :: "world \<Rightarrow> string \<Rightarrow> string \<Rightarrow> js_error + (nat \<times> world)" where
  "rateLimit_upsert w userId windowKey =
     (if \<not> storage_up w then Inl StorageError
      else
        let count = (case rateLimits w (userId, windowKey) of None \<Rightarrow> 1 | Some c \<Rightarrow> c + 1)
        in Inr (count, w\<lparr>rateLimits := (rateLimits w)((userId, windowKey) \<mapsto> count)\<rparr>))"

text \<open>\<open>new Date()\<close> reads the clock; \<open>toISOString().slice(0, 16)\<close> keeps
  \<open>YYYY-MM-DDTHH:mm\<close>.\<close>

definition read_clock :: "env \<Rightarrow> world \<Rightarrow> string \<times> world" where
  "read_clock e w = (clock e (clock_reads w), w\<lparr>clock_reads := Suc (clock_reads w)\<rparr>)"

definition checkRateLimit :: "env \<Rightarrow> world \<Rightarrow> string \<Rightarrow> rate_check \<times> world" where
  "checkRateLimit e w userId =
     (let (now, w1) = read_clock e w;
          windowKey = take 16 now
      in case rateLimit_upsert w1 userId windowKey of
           Inr (count, w2) \<Rightarrow>
             (\<lparr> allowed = count \<le> MAX_RUNS_PER_MINUTE,
                remaining = nat (max 0 (int MAX_RUNS_PER_MINUTE - int count)) \<rparr>, w2)
         | Inl err \<Rightarrow>
             (\<lparr> allowed = True, remaining = MAX_RUNS_PER_MINUTE \<rparr>, w1))"

text \<open>Consecutive calls by one user, as the batch loop makes them.\<close>

fun checkRateLimit_times :: "env \<Rightarrow> world \<Rightarrow> string \<Rightarrow> nat \<Rightarrow> rate_check list \<times> world" where
  "checkRateLimit_times e w userId 0 = ([], w)"
| "checkRateLimit_times e w userId (Suc n) =
     (let (r, w1) = checkRateLimit e w userId;
          (rs, w2) = checkRateLimit_times e w1 userId n
      in (r # rs, w2))"

section \<open>The test runner (test-runner: executeRun, runTest, runAdHocPrompt)\<close>

text \<open>Decimal digits of a number, for identifiers and messages.\<close>

fun show_nat :: "nat \<Rightarrow> string" where
  "show_nat n =
     (if n < 10 then [char_of (48 + n)] else show_nat (n div 10) @ [char_of (48 + n mod 10)])"

declare show_nat.simps [simp del]

definition fresh_run_id :: "nat \<Rightarrow> string" where
  "fresh_run_id n = ''run_'' @ show_nat n"

text \<open>
  Modelled from the spec: \<open>prisma.run.create\<close> belongs to the persistence client, which
  is not under src/. It stores the record under a fresh, non-empty opaque identifier and
  returns it. The status written is noted in \<open>status_log\<close>.
\<close>

definition run_create :: "world \<Rightarrow> run \<Rightarrow> string \<times> world" where
  "run_create w data =
     (let rid = fresh_run_id (next_id w)
      in (rid, w\<lparr> runs := runs w @ [data\<lparr>r_id := rid\<rparr>],
                   next_id := Suc (next_id w),
                   status_log := status_log w @ [(rid, r_status data)] \<rparr>))"

text \<open>
  Modelled from the spec: \<open>prisma.run.update\<close> belongs to the persistence client, which
  is not under src/. It writes the given status and fields to the record with the given
  identifier (here always one that \<open>run_create\<close> has just returned). The status written
  is noted in \<open>status_log\<close>.
\<close>

definition run_update :: "string \<Rightarrow> run_status \<Rightarrow> (run \<Rightarrow> run) \<Rightarrow> world \<Rightarrow> world" where
  "run_update runId st f w =
     w\<lparr> runs := map (\<lambda>r. if r_id r = runId then f (r\<lparr>r_status := st\<rparr>) else r) (runs w),
        status_log := status_log w @ [(runId, st)] \<rparr>"

definition new_run :: "string \<Rightarrow> string option \<Rightarrow> model_config \<Rightarrow> string \<Rightarrow> js_record
                        \<Rightarrow> string option \<Rightarrow> nat option \<Rightarrow> bool \<Rightarrow> run" where
  "new_run userId testId modelConfig prompt inputVariables batchId batchIndex isDryRun =
     \<lparr> r_id = [], r_userId = userId, r_testId = testId, r_apiKeyId = mc_apiKeyId modelConfig,
       r_provider = mc_provider modelConfig, r_model = mc_model modelConfig, r_prompt = prompt,
       r_inputVariables = inputVariables, r_status = Pending, r_batchId = batchId,
       r_batchIndex = batchIndex, r_isDryRun = isDryRun, r_output = None,
       r_errorMessage = None, r_inputTokens = None, r_outputTokens = None,
       r_totalTokens = None, r_tokensEstimated = False, r_estimatedCost = None,
       r_costEstimated = False, r_passed = None, r_validationNotes = None \<rparr>"

definition result_stub :: "string \<Rightarrow> run_status \<Rightarrow> model_config \<Rightarrow> run_result" where
  "result_stub rid st modelConfig =
     \<lparr> rr_id = rid, rr_status = st, rr_provider = mc_provider modelConfig,
       rr_model = mc_model modelConfig, rr_output = None, rr_errorMessage = None,
       rr_inputTokens = None, rr_outputTokens = None, rr_estimatedCost = None,
       rr_passed = None, rr_validationNotes = None \<rparr>"

definition error_message :: "js_error \<Rightarrow> string" where
  "error_message err =
     (case err of
        TypeError m \<Rightarrow> m
      | RateLimitExceeded \<Rightarrow>
          ''Rate limit exceeded. Please wait a minute before running more tests.''
      | RateLimitExceededAfter n \<Rightarrow>
          ''Rate limit exceeded after '' @ show_nat n @ '' runs. Results so far have been saved.''
      | TestNotFound \<Rightarrow> ''Test not found''
      | StorageError \<Rightarrow> ''Storage error''
      | UnmodelledRegExp k \<Rightarrow> ''Invalid regular expression'')"

text \<open>The adapter registry is a \<open>Map\<close> holding the five built-in adapters.\<close>

definition adapter_names :: "string list" where
  "adapter_names = [''openai'', ''anthropic'', ''google'', ''deepseek'', ''local'']"

definition getAdapter :: "string \<Rightarrow> string option" where
  "getAdapter providerName =
     (if providerName \<in> set adapter_names then Some providerName else None)"

text \<open>
  The body of the \<open>try\<close> block of \<open>executeRun\<close>, up to the values it computes; \<open>Inl\<close>
  carries the message of whatever was thrown. Only \<open>adapter.complete\<close> reaches the network.
\<close>

record completion =
  cm_output :: string
  cm_inputTokens :: int
  cm_outputTokens :: int
  cm_tokensEstimated :: bool
  cm_cost :: jsnum
  cm_costEstimated :: bool
  cm_validation :: "validation_result option"

definition attempt_completion ::
  "env \<Rightarrow> world \<Rightarrow> string \<Rightarrow> model_config \<Rightarrow> api_key \<Rightarrow> string option \<Rightarrow> string option
     \<Rightarrow> (string + completion) \<times> world" where
  "attempt_completion e w prompt modelConfig apiKey expectedContains jsonSchema =
     (case decrypt_outcome e (ak_encryptedKey apiKey) (ak_iv apiKey) (ak_authTag apiKey) of
        Inl msg \<Rightarrow> (Inl msg, w)
      | Inr decryptedKey \<Rightarrow>
          (case getAdapter (mc_provider modelConfig) of
             None \<Rightarrow> (Inl (''Provider '' @ mc_provider modelConfig @ '' not found''), w)
           | Some adapter \<Rightarrow>
               let w1 = w\<lparr>adapter_log := adapter_log w @ [(adapter, mc_model modelConfig)]\<rparr>;
                   baseUrl = (if ak_baseUrl apiKey = Some [] then None else ak_baseUrl apiKey)
               in (case complete_outcome e (length (adapter_log w)) adapter (mc_model modelConfig)
                          prompt decryptedKey baseUrl of
                     Inl msg \<Rightarrow> (Inl msg, w1)
                   | Inr response \<Rightarrow>
                       let inputTokens = (case pr_inputTokens response of
                                            Some n \<Rightarrow> n | None \<Rightarrow> estimateTokenCount prompt);
                           outputTokens = (case pr_outputTokens response of
                                             Some n \<Rightarrow> n
                                           | None \<Rightarrow> estimateTokenCount (pr_output response));
                           tokensEstimated =
                             (pr_tokensEstimated response \<or> pr_inputTokens response = None)
                       in (case calculateCost (mc_provider modelConfig) (mc_model modelConfig)
                                  inputTokens outputTokens of
                             Inl err \<Rightarrow> (Inl (error_message err), w1)
                           | Inr c \<Rightarrow>
                               (Inr \<lparr> cm_output = pr_output response,
                                      cm_inputTokens = inputTokens,
                                      cm_outputTokens = outputTokens,
                                      cm_tokensEstimated = tokensEstimated,
                                      cm_cost = cost c, cm_costEstimated = isEstimated c,
                                      cm_validation = validateOutput e (pr_output response)
                                                        expectedContains jsonSchema \<rparr>, w1)))))"

definition executeRun ::
  "env \<Rightarrow> world \<Rightarrow> string \<Rightarrow> string \<Rightarrow> model_config \<Rightarrow> api_key \<Rightarrow> string option \<Rightarrow> string option
     \<Rightarrow> bool \<Rightarrow> (js_error + run_result) \<times> world" where
  "executeRun e w runId prompt modelConfig apiKey expectedContains jsonSchema isDryRun =
     (let w1 = run_update runId Running (\<lambda>r. r) w
      in if isDryRun then
           let inputTokens = estimateTokenCount prompt;
               outputTokens = estimateTokenCount []
           in (case calculateCost (mc_provider modelConfig) (mc_model modelConfig) inputTokens 500 of
                 Inl err \<Rightarrow> (Inl err, w1)
               | Inr c \<Rightarrow>
                   (Inr ((result_stub runId DryRun modelConfig)
                           \<lparr> rr_inputTokens := Some inputTokens,
                              rr_estimatedCost := Some (cost c) \<rparr>),
                    run_update runId DryRun
                      (\<lambda>r. r\<lparr> r_inputTokens := Some inputTokens, r_outputTokens := None,
                                r_estimatedCost := Some (cost c), r_tokensEstimated := True,
                                r_costEstimated := True, r_isDryRun := True \<rparr>) w1))
         else
           (case attempt_completion e w1 prompt modelConfig apiKey expectedContains jsonSchema of
              (Inr cm, w2) \<Rightarrow>
                (Inr ((result_stub runId Completed modelConfig)
                        \<lparr> rr_output := Some (cm_output cm),
                           rr_inputTokens := Some (cm_inputTokens cm),
                           rr_outputTokens := Some (cm_outputTokens cm),
                           rr_estimatedCost := Some (cm_cost cm),
                           rr_passed := map_option v_passed (cm_validation cm),
                           rr_validationNotes := map_option v_notes (cm_validation cm) \<rparr>),
                 run_update runId Completed
                   (\<lambda>r. r\<lparr> r_output := Some (cm_output cm),
                             r_inputTokens := Some (cm_inputTokens cm),
                             r_outputTokens := Some (cm_outputTokens cm),
                             r_totalTokens := Some (cm_inputTokens cm + cm_outputTokens cm),
                             r_tokensEstimated := cm_tokensEstimated cm,
                             r_estimatedCost := Some (cm_cost cm),
                             r_costEstimated := cm_costEstimated cm,
                             r_passed := map_option v_passed (cm_validation cm),
                             r_validationNotes := map_option v_notes (cm_validation cm) \<rparr>) w2)
            | (Inl errorMessage, w2) \<Rightarrow>
                (Inr ((result_stub runId Failed modelConfig)
                        \<lparr> rr_errorMessage := Some errorMessage \<rparr>),
                 run_update runId Failed (\<lambda>r. r\<lparr> r_errorMessage := Some errorMessage \<rparr>) w2)))"

record run_options =
  o_testId :: string
  o_modelConfigs :: "model_config list"
  o_variables :: "js_record option"
  o_batchCount :: "real option"
  o_isDryRun :: "bool option"
  o_userId :: string

record batch_ctx =
  c_userId :: string
  c_testId :: string
  c_prompt :: string
  c_mergedVariables :: js_record
  c_batchId :: string
  c_apiKeyMap :: "string \<Rightarrow> api_key option"
  c_expectedContains :: "string option"
  c_jsonSchema :: "string option"
  c_isDryRun :: bool

definition missing_key_result :: "model_config \<Rightarrow> run_result" where
  "missing_key_result modelConfig =
     (result_stub [] Failed modelConfig)
       \<lparr> rr_errorMessage := Some ''API key not found or inactive'' \<rparr>"

text \<open>The re-check at the head of the loop body: it throws when the limit is exceeded.\<close>

definition recheck :: "env \<Rightarrow> batch_ctx \<Rightarrow> nat \<Rightarrow> world \<Rightarrow> js_error option \<times> world" where
  "recheck e c n w =
     (if \<not> c_isDryRun c then
        (let (check, w1) = checkRateLimit e w (c_userId c)
         in if \<not> allowed check then (Some (RateLimitExceededAfter n), w1) else (None, w1))
      else (None, w))"

text \<open>The body of the inner loop, on the accumulators \<open>results\<close> and \<open>batchIndex\<close>.\<close>

definition run_selection ::
  "env \<Rightarrow> batch_ctx \<Rightarrow> model_config \<Rightarrow> run_result list \<times> nat \<Rightarrow> world
     \<Rightarrow> (js_error + run_result list \<times> nat) \<times> world" where
  "run_selection e c modelConfig acc w =
     (case recheck e c (length (fst acc)) w of
        (Some err, w1) \<Rightarrow> (Inl err, w1)
      | (None, w1) \<Rightarrow>
          (case c_apiKeyMap c (mc_apiKeyId modelConfig) of
             None \<Rightarrow> (Inr (fst acc @ [missing_key_result modelConfig], snd acc), w1)
           | Some apiKey \<Rightarrow>
               let (runId, w2) =
                     run_create w1
                       (new_run (c_userId c) (Some (c_testId c)) modelConfig (c_prompt c)
                          (c_mergedVariables c) (Some (c_batchId c)) (Some (snd acc))
                          (c_isDryRun c))
               in (case executeRun e w2 runId (c_prompt c) modelConfig apiKey
                          (c_expectedContains c) (c_jsonSchema c) (c_isDryRun c) of
                     (Inl err, w3) \<Rightarrow> (Inl err, w3)
                   | (Inr result, w3) \<Rightarrow> (Inr (fst acc @ [result], Suc (snd acc)), w3))))"

fun run_selections ::
  "env \<Rightarrow> batch_ctx \<Rightarrow> model_config list \<Rightarrow> run_result list \<times> nat \<Rightarrow> world
     \<Rightarrow> (js_error + run_result list \<times> nat) \<times> world" where
  "run_selections e c [] acc w = (Inr acc, w)"
| "run_selections e c (modelConfig # rest) acc w =
     (case run_selection e c modelConfig acc w of
        (Inl err, w1) \<Rightarrow> (Inl err, w1)
      | (Inr acc1, w1) \<Rightarrow> run_selections e c rest acc1 w1)"

fun run_repetitions ::
  "env \<Rightarrow> batch_ctx \<Rightarrow> nat \<Rightarrow> model_config list \<Rightarrow> run_result list \<times> nat \<Rightarrow> world
     \<Rightarrow> (js_error + run_result list \<times> nat) \<times> world" where
  "run_repetitions e c 0 modelConfigs acc w = (Inr acc, w)"
| "run_repetitions e c (Suc n) modelConfigs acc w =
     (case run_selections e c modelConfigs acc w of
        (Inl err, w1) \<Rightarrow> (Inl err, w1)
      | (Inr acc1, w1) \<Rightarrow> run_repetitions e c n modelConfigs acc1 w1)"

text \<open>
  Modelled from the spec: \<open>prisma.apiKey.findMany\<close> belongs to the persistence client,
  which is not under src/. It is the bulk lookup by identifier set, filtered to the
  requesting user and \<open>isActive = true\<close>; the result is the \<open>Map\<close> the loop consults.
  \<open>runAdHocPrompt\<close> uses \<open>findFirst\<close> with the same filter on a single identifier.
\<close>

definition active_keys :: "world \<Rightarrow> string \<Rightarrow> string list \<Rightarrow> string \<Rightarrow> api_key option" where
  "active_keys w userId apiKeyIds kid =
     (case apiKeys w kid of
        None \<Rightarrow> None
      | Some k \<Rightarrow>
          if kid \<in> set apiKeyIds \<and> ak_userId k = userId \<and> ak_isActive k then Some k else None)"

text \<open>The defaults of the destructured options: \<open>variables = {}\<close>, \<open>batchCount = 1\<close>,
  \<open>isDryRun = false\<close>.\<close>

definition opt_variables :: "run_options \<Rightarrow> js_record" where
  "opt_variables options = (case o_variables options of None \<Rightarrow> [] | Some v \<Rightarrow> v)"

definition opt_batchCount :: "run_options \<Rightarrow> real" where
  "opt_batchCount options = (case o_batchCount options of None \<Rightarrow> 1 | Some n \<Rightarrow> n)"

definition opt_isDryRun :: "run_options \<Rightarrow> bool" where
  "opt_isDryRun options = (case o_isDryRun options of None \<Rightarrow> False | Some b \<Rightarrow> b)"

text \<open>What the loop of \<open>runTest\<close> reads: the values computed before it starts.\<close>

definition batch_context :: "env \<Rightarrow> world \<Rightarrow> run_options \<Rightarrow> test_def \<Rightarrow> string \<Rightarrow> batch_ctx" where
  "batch_context e w options test prompt =
     \<lparr> c_userId = o_userId options, c_testId = o_testId options, c_prompt = prompt,
       c_mergedVariables = js_spread (t_variables test) (opt_variables options),
       c_batchId = new_batch_id e,
       c_apiKeyMap =
         active_keys w (o_userId options) (remdups (map mc_apiKeyId (o_modelConfigs options))),
       c_expectedContains = t_expectedContains test,
       c_jsonSchema = t_jsonSchema test,
       c_isDryRun = opt_isDryRun options \<rparr>"

text \<open>
  \<open>runTest\<close>. The loop \<open>for (let i = 0; i < batchCount; i++)\<close> runs \<open>\<lceil>batchCount\<rceil>\<close> times
  (not at all for a count below or equal to 0).
\<close>

definition runTest :: "env \<Rightarrow> world \<Rightarrow> run_options \<Rightarrow> (js_error + run_result list) \<times> world" where
  "runTest e w options =
     (let (rateCheck, w1) = checkRateLimit e w (o_userId options)
      in if \<not> allowed rateCheck then (Inl RateLimitExceeded, w1)
         else if \<not> storage_up w1 then (Inl StorageError, w1)
         else
           (case tests w1 (o_testId options) of
              None \<Rightarrow> (Inl TestNotFound, w1)
            | Some test \<Rightarrow>
                if t_userId test \<noteq> o_userId options then (Inl TestNotFound, w1)
                else
                  (case substituteVariables (t_basePrompt test)
                          (js_spread (t_variables test) (opt_variables options)) of
                     Inl err \<Rightarrow> (Inl err, w1)
                   | Inr prompt \<Rightarrow>
                       (case run_repetitions e (batch_context e w1 options test prompt)
                               (nat \<lceil>opt_batchCount options\<rceil>) (o_modelConfigs options) ([], 0) w1 of
                          (Inl err, w2) \<Rightarrow> (Inl err, w2)
                        | (Inr acc, w2) \<Rightarrow> (Inr (fst acc), w2)))))"

definition runAdHocPrompt ::
  "env \<Rightarrow> world \<Rightarrow> string \<Rightarrow> string \<Rightarrow> model_config \<Rightarrow> bool \<Rightarrow> (js_error + run_result) \<times> world" where
  "runAdHocPrompt e w userId prompt modelConfig isDryRun =
     (let (limited, w1) =
            (if \<not> isDryRun then
               (let (rateCheck, w') = checkRateLimit e w userId in (\<not> allowed rateCheck, w'))
             else (False, w))
      in if limited then (Inl RateLimitExceeded, w1)
         else if \<not> storage_up w1 then (Inl StorageError, w1)
         else
           (case active_keys w1 userId [mc_apiKeyId modelConfig] (mc_apiKeyId modelConfig) of
              None \<Rightarrow> (Inr (missing_key_result modelConfig), w1)
            | Some apiKey \<Rightarrow>
                let (runId, w2) =
                      run_create w1 (new_run userId None modelConfig prompt [] None None isDryRun)
                in executeRun e w2 runId prompt modelConfig apiKey None None isDryRun))"

section \<open>Concrete inputs\<close>

text \<open>
  One user \<open>u1\<close> with a stored test, an active key \<open>k1\<close> and a disabled key \<open>k2\<close>.
  The clock stays within the minute 12:00 for its first eleven readings and then moves
  to 12:01. The provider answers for \<open>gpt-4o\<close> and fails for every other model.
\<close>

definition example_env :: env where
  "example_env =
     \<lparr> clock = (\<lambda>k. if k < 11 then ''2026-01-15T12:00:30.000Z'' else ''2026-01-15T12:01:05.000Z''),
       new_batch_id = ''batch_1768478430000_k3x9q2'',
       decrypt_outcome = (\<lambda>c i t. Inr ''sk-plain-key''),
       complete_outcome =
         (\<lambda>k p m prompt key url.
            if m = ''gpt-4o''
            then Inr \<lparr> pr_output = ''hello'', pr_inputTokens = Some 12,
                       pr_outputTokens = None, pr_tokensEstimated = False \<rparr>
            else Inl ''HTTP 500''),
       validateOutput = (\<lambda>out ec js. None) \<rparr>"

definition example_key :: "bool \<Rightarrow> api_key" where
  "example_key active =
     \<lparr> ak_userId = ''u1'', ak_isActive = active, ak_encryptedKey = ''9f3a'', ak_iv = ''01ab'',
       ak_authTag = ''77c0'', ak_baseUrl = None \<rparr>"

definition example_test :: test_def where
  "example_test =
     \<lparr> t_userId = ''u1'', t_basePrompt = ''Say {{word}} to {{ name }}'',
       t_variables = [(''word'', ''hi'')], t_expectedContains = None, t_jsonSchema = None \<rparr>"

definition example_world :: "nat \<Rightarrow> world" where
  "example_world n =
     \<lparr> storage_up = True,
       rateLimits = (if n = 0 then Map.empty else [(''u1'', ''2026-01-15T12:00'') \<mapsto> n]),
       tests = [''t1'' \<mapsto> example_test],
       apiKeys = [''k1'' \<mapsto> example_key True, ''k2'' \<mapsto> example_key False],
       runs = [], next_id = 0, clock_reads = 0, status_log = [], adapter_log = [] \<rparr>"

definition selection :: "string \<Rightarrow> string \<Rightarrow> string \<Rightarrow> model_config" where
  "selection p m k = \<lparr> mc_provider = p, mc_model = m, mc_apiKeyId = k \<rparr>"

definition example_options :: "model_config list \<Rightarrow> bool \<Rightarrow> run_options" where
  "example_options cfgs dry =
     \<lparr> o_testId = ''t1'', o_modelConfigs = cfgs, o_variables = Some [(''name'', ''Bob'')],
       o_batchCount = None, o_isDryRun = Some dry, o_userId = ''u1'' \<rparr>"

text \<open>The count a user's window holds, 0 when the window has no counter yet.\<close>

definition window_count :: "world \<Rightarrow> string \<Rightarrow> string \<Rightarrow> nat" where
  "window_count w u W = (case rateLimits w (u, W) of None \<Rightarrow> 0 | Some c \<Rightarrow> c)"

section \<open>Notions used in the statements about the batch loop\<close>


text \<open>The identifiers of the records behind a list of results, and the statuses those
  records went through.\<close>

definition persisted_ids :: "run_result list \<Rightarrow> string list" where
  "persisted_ids rs = filter (\<lambda>i. i \<noteq> []) (map rr_id rs)"

definition lifecycle :: "run_result list \<Rightarrow> (string \<times> run_status) list" where
  "lifecycle rs =
     concat (map (\<lambda>r. if rr_id r = [] then []
                       else [(rr_id r, Pending), (rr_id r, Running), (rr_id r, rr_status r)]) rs)"

section \<open>Properties of the pricing ladder\<close>

lemma js_get_PROVIDER_CONFIGS_Own:
  "js_get PROVIDER_CONFIGS provider = Own cfg \<Longrightarrow>
     js_get (models cfg) (defaultModel cfg) = Own (snd (hd (models cfg)))"
  by (auto simp: js_get_def PROVIDER_CONFIGS_def split: if_splits)

lemma calculateCost_known:
  assumes "js_get PROVIDER_CONFIGS provider = Own cfg"
    and "js_get (models cfg) model = Own p"
  shows "calculateCost provider model i out =
           Inr \<lparr> cost = Num (linear_cost p i out), isEstimated = False \<rparr>"
  using assms by (simp add: calculateCost_def)

lemma calculateCost_unknown_model:
  assumes "js_get PROVIDER_CONFIGS provider = Own cfg"
    and "js_get (models cfg) model = Undefined"
    and "js_get (models cfg) (defaultModel cfg) = Own d"
  shows "calculateCost provider model i out =
           Inr \<lparr> cost = Num (linear_cost d i out), isEstimated = True \<rparr>"
  using assms by (simp add: calculateCost_def)

lemma calculateCost_unknown_provider:
  assumes "js_get PROVIDER_CONFIGS provider = Undefined"
  shows "calculateCost provider model i out =
           Inr \<lparr> cost = Num (real_of_int (i + out) * (10 / 1000000)), isEstimated = True \<rparr>"
  using assms by (simp add: calculateCost_def flat_cost_def)

lemma calculateCost_total_off_prototype:
  assumes "provider \<notin> set object_prototype_keys"
  shows "\<exists>r. calculateCost provider model i out = Inr r"
  using assms
  by (auto simp: calculateCost_def js_get_def split: option.splits js_prop.splits)

text \<open>
  C4. Stated: \<open>calculateCost\<close> never fails, prices an unknown provider with the flat
  heuristic and an unknown model of a known provider with the default model's rates.
  The provider name \<open>constructor\<close> is not in the price table, but the lookup finds the
  inherited \<open>Object.prototype.constructor\<close>, the guard \<open>!providerConfig\<close> does not fire,
  and indexing its missing \<open>models\<close> raises a TypeError instead of returning the flat
  estimate. In the same way the model name \<open>constructor\<close> under \<open>openai\<close> is taken for
  a price entry and yields the cost \<open>NaN\<close>, not flagged as estimated.
\<close>

theorem calculateCost_constructor_raises:
  "map_of PROVIDER_CONFIGS ''constructor'' = None
   \<and> calculateCost ''constructor'' ''gpt-4o'' 1000 500 =
       Inl (TypeError (''Cannot read properties of undefined (reading '' @ [CHR 0x27] @ ''gpt-4o''
              @ [CHR 0x27] @ '')''))
   \<and> calculateCost ''openai'' ''constructor'' 1000 500 =
       Inr \<lparr> cost = NaN, isEstimated = False \<rparr>"
  by (simp add: calculateCost_def js_get_def PROVIDER_CONFIGS_def object_prototype_keys_def
        price_def)

section \<open>Properties of redaction\<close>

lemma get_substitution_no_dollar:
  "CHR ''$'' \<notin> set repl \<Longrightarrow> get_substitution m p f repl = repl"
  by (induction m p f repl rule: get_substitution.induct) auto

lemma regexp_literal_plain:
  "c \<notin> set regex_syntax_chars \<Longrightarrow> regexp_literal (c # r) = map_option ((#) c) (regexp_literal r)"
  by (cases r) (auto simp: regex_syntax_chars_def backslash_def)

lemma regexp_literal_escaped:
  "c \<in> set regex_syntax_chars \<Longrightarrow>
     regexp_literal (backslash # c # r) = map_option ((#) c) (regexp_literal r)"
  by simp

lemma escape_step:
  "get_substitution [c] p f [backslash, CHR ''$'', CHR ''&''] = [backslash, c]"
  by (simp add: backslash_def)

lemma regexp_literal_escape_regexp_aux:
  "regexp_literal (js_replace_all (class_match regex_syntax_chars) [backslash, CHR ''$'', CHR ''&''] p k) = Some k"
proof (induction k arbitrary: p)
  case Nil
  show ?case by simp
next
  case (Cons c cs)
  show ?case
  proof (cases "c \<in> set regex_syntax_chars")
    case True
    then show ?thesis
      using Cons.IH[of "p @ [c]"]
      by (simp add: class_match_def escape_step regexp_literal_escaped del: regexp_literal.simps get_substitution.simps)
  next
    case False
    then show ?thesis
      using Cons.IH[of "p @ [c]"]
      by (simp add: class_match_def regexp_literal_plain del: regexp_literal.simps)
  qed
qed

lemma regexp_literal_escape_regexp: "regexp_literal (escape_regexp k) = Some k"
  by (simp add: escape_regexp_def regexp_literal_escape_regexp_aux)

lemma redactApiKey_eq:
  "redactApiKey text apiKey =
     Inr (if length apiKey < 8 then text else js_replace_all (literal_match apiKey) REDACTED [] text)"
  by (auto simp: redactApiKey_def regexp_literal_escape_regexp)

lemma redact_step:
  "get_substitution m p f REDACTED = REDACTED"
  by (rule get_substitution_no_dollar) (simp add: REDACTED_def)

lemma replace_prefix_back:
  assumes "CHR ''['' \<notin> set q" and "k \<noteq> []"
    and "prefix q (js_replace_all (literal_match k) REDACTED p s)"
  shows "prefix q s"
  using assms
proof (induction s arbitrary: p q rule: length_induct)
  case (1 s)
  show ?case
  proof (cases s)
    case Nil
    with 1 show ?thesis by simp
  next
    case (Cons c cs)
    show ?thesis
    proof (cases "prefix k s")
      case True
      with Cons 1(3) have "js_replace_all (literal_match k) REDACTED p s =
          REDACTED @ js_replace_all (literal_match k) REDACTED (p @ take (length k) s) (drop (length k) s)"
        by (simp add: literal_match_def redact_step)
      with 1(4) have "prefix q (CHR ''['' # ''REDACTED]'' @
          js_replace_all (literal_match k) REDACTED (p @ take (length k) s) (drop (length k) s))"
        by (simp add: REDACTED_def)
      with 1(2) have "q = []" by (auto simp: prefix_Cons)
      then show ?thesis by simp
    next
      case False
      with Cons have eq: "js_replace_all (literal_match k) REDACTED p s =
          c # js_replace_all (literal_match k) REDACTED (p @ [c]) cs"
        by (simp add: literal_match_def)
      show ?thesis
      proof (cases q)
        case Nil
        then show ?thesis by simp
      next
        case (Cons d q')
        with eq 1(4) have d: "d = c" and pq: "prefix q' (js_replace_all (literal_match k) REDACTED (p @ [c]) cs)"
          by simp_all
        from 1(2) Cons have "CHR ''['' \<notin> set q'" by simp
        with 1(1) \<open>s = c # cs\<close> 1(3) pq have "prefix q' cs" by simp
        with d Cons \<open>s = c # cs\<close> show ?thesis by simp
      qed
    qed
  qed
qed

lemma last_REDACTED: "last REDACTED = CHR '']''"
  by (simp add: REDACTED_def)

lemma suffix_REDACTED_last:
  assumes "suffix k1 REDACTED" and "k1 \<noteq> []"
  shows "CHR '']'' \<in> set k1"
proof -
  from assms(1) obtain ps where "REDACTED = ps @ k1" by (auto simp: suffix_def)
  then have "last REDACTED = last (ps @ k1)" by simp
  also from assms(2) have "\<dots> = last k1" by (rule last_appendR)
  finally have "last k1 = CHR '']''" using last_REDACTED by simp
  with assms(2) show ?thesis using last_in_set by fastforce
qed

lemma sublist_REDACTED:
  assumes "sublist k REDACTED" and "8 \<le> length k"
    and "CHR ''['' \<notin> set k" and "CHR '']'' \<notin> set k"
  shows "k = ''REDACTED''"
proof -
  from assms(1) obtain ps ss where eq: "REDACTED = ps @ k @ ss"
    by (auto simp: sublist_def)
  from assms(2) have kne: "k \<noteq> []" by auto
  have ps: "ps \<noteq> []"
  proof
    assume "ps = []"
    with eq kne have "hd k = CHR ''[''" by (cases k) (auto simp: REDACTED_def)
    with kne assms(3) show False by (cases k) auto
  qed
  have ss: "ss \<noteq> []"
  proof
    assume "ss = []"
    with eq have "REDACTED = ps @ k" by simp
    then have "suffix k REDACTED" by (rule suffixI)
    with kne assms(4) show False using suffix_REDACTED_last by blast
  qed
  have "length (ps @ k @ ss) = 10" unfolding eq[symmetric] by (simp add: REDACTED_def)
  then have sum: "length ps + length k + length ss = 10" by simp
  from ps have "1 \<le> length ps" by (cases ps) simp_all
  moreover from ss have "1 \<le> length ss" by (cases ss) simp_all
  ultimately have lp: "length ps = 1" and lk: "length k = 8"
    using assms(2) sum by arith+
  have "take (length k) (drop (length ps) (ps @ k @ ss)) = k" by simp
  with lp lk have "k = take 8 (drop 1 REDACTED)" unfolding eq[symmetric] by simp
  then show ?thesis by (simp add: REDACTED_def)
qed

lemma replace_no_occurrence:
  assumes "8 \<le> length k" and "CHR ''['' \<notin> set k" and "CHR '']'' \<notin> set k"
    and "k \<noteq> ''REDACTED''"
  shows "\<not> sublist k (js_replace_all (literal_match k) REDACTED p s)"
proof (induction s arbitrary: p rule: length_induct)
  case (1 s)
  from assms(1) have kne: "k \<noteq> []" by auto
  show ?case
  proof (cases s)
    case Nil
    with kne show ?thesis by simp
  next
    case (Cons c cs)
    show ?thesis
    proof (cases "prefix k s")
      case True
      let ?t = "js_replace_all (literal_match k) REDACTED (p @ take (length k) s) (drop (length k) s)"
      from True Cons kne have eq: "js_replace_all (literal_match k) REDACTED p s = REDACTED @ ?t"
        by (simp add: literal_match_def redact_step)
      from kne Cons have "length (drop (length k) s) < length s" by simp
      with 1 have IH: "\<not> sublist k ?t" by blast
      have "\<not> sublist k (REDACTED @ ?t)"
      proof
        assume "sublist k (REDACTED @ ?t)"
        then have "sublist k REDACTED \<or> sublist k ?t
            \<or> (\<exists>k1 k2. k = k1 @ k2 \<and> suffix k1 REDACTED \<and> prefix k2 ?t)"
          by (simp only: sublist_append)
        moreover have "sublist k ?t" if "k = k1 @ k2" "k1 = []" "prefix k2 ?t" for k1 k2
          using that by (simp add: prefix_imp_sublist)
        ultimately consider "sublist k REDACTED" | "sublist k ?t"
          | k1 k2 where "k = k1 @ k2" "k1 \<noteq> []" "suffix k1 REDACTED"
          by blast
        then show False
        proof cases
          case 1
          with assms show ?thesis using sublist_REDACTED by blast
        next
          case 2
          with IH show ?thesis by simp
        next
          case 3
          from 3(2,3) have "CHR '']'' \<in> set k1" using suffix_REDACTED_last by blast
          with 3(1) assms(3) show ?thesis by simp
        qed
      qed
      with eq show ?thesis by simp
    next
      case False
      with Cons have eq: "js_replace_all (literal_match k) REDACTED p s =
          c # js_replace_all (literal_match k) REDACTED (p @ [c]) cs"
        by (simp add: literal_match_def)
      from Cons 1 have IH: "\<not> sublist k (js_replace_all (literal_match k) REDACTED (p @ [c]) cs)"
        by simp
      have "\<not> prefix k (js_replace_all (literal_match k) REDACTED p s)"
        using replace_prefix_back[OF assms(2) kne] False by blast
      with eq IH show ?thesis by (simp add: sublist_Cons_right)
    qed
  qed
qed

text \<open>
  C5, as stated: for every secret of at least 8 characters the output of
  \<open>redactApiKey\<close> contains no occurrence of the secret. This fails when the secret
  occurs inside the placeholder itself: redacting the secret \<open>REDACTED\<close> writes it back.
\<close>

theorem redactApiKey_counterexample:
  "8 \<le> length ''REDACTED'' \<and>
   redactApiKey ''key=REDACTED'' ''REDACTED'' = Inr ''key=[REDACTED]'' \<and>
   sublist ''REDACTED'' ''key=[REDACTED]''"
proof -
  have "redactApiKey ''key=REDACTED'' ''REDACTED'' = Inr ''key=[REDACTED]''"
    by (simp add: redactApiKey_eq literal_match_def REDACTED_def)
  moreover have "''key=[REDACTED]'' = ''key=['' @ ''REDACTED'' @ '']''" by simp
  then have "sublist ''REDACTED'' ''key=[REDACTED]''" unfolding sublist_def by blast
  ultimately show ?thesis by simp
qed

text \<open>
  C5, amended: for every text and every secret of at least 8 characters that contains
  neither bracket of the placeholder and is not the word \<open>REDACTED\<close>, \<open>redactApiKey\<close>
  returns a string with no occurrence of the secret; for every secret shorter than 8
  characters it returns the text unchanged.
\<close>

theorem redactApiKey_no_occurrence:
  "(8 \<le> length secret \<and> CHR ''['' \<notin> set secret \<and> CHR '']'' \<notin> set secret
      \<and> secret \<noteq> ''REDACTED''
     \<longrightarrow> (\<exists>out. redactApiKey text secret = Inr out \<and> \<not> sublist secret out))
   \<and> (length short < 8 \<longrightarrow> redactApiKey text short = Inr text)"
  by (simp add: redactApiKey_eq replace_no_occurrence)

theorem redactApiKey_no_occurrence_witness:
  "8 \<le> length ''sk-12345678'' \<and> CHR ''['' \<notin> set ''sk-12345678''
   \<and> CHR '']'' \<notin> set ''sk-12345678'' \<and> ''sk-12345678'' \<noteq> ''REDACTED''
   \<and> (\<exists>out. redactApiKey ''401: bad key sk-12345678'' ''sk-12345678'' = Inr out
          \<and> \<not> sublist ''sk-12345678'' out)
   \<and> length ''sk-1'' < 8
   \<and> redactApiKey ''401: bad key sk-12345678'' ''sk-1'' = Inr ''401: bad key sk-12345678''"
  using redactApiKey_no_occurrence [of "''sk-12345678''" "''401: bad key sk-12345678''" "''sk-1''"]
  by simp

section \<open>Properties of the rate limiter\<close>

lemma checkRateLimit_up:
  assumes "storage_up w"
  shows "checkRateLimit e w u =
    (let key = take 16 (clock e (clock_reads w));
         n = (case rateLimits w (u, key) of None \<Rightarrow> 1 | Some c \<Rightarrow> c + 1)
     in (\<lparr> allowed = n \<le> 10, remaining = 10 - n \<rparr>,
         w\<lparr> clock_reads := Suc (clock_reads w),
            rateLimits := (rateLimits w)((u, key) \<mapsto> n) \<rparr>))"
  using assms
  by (simp add: checkRateLimit_def read_clock_def rateLimit_upsert_def MAX_RUNS_PER_MINUTE_def Let_def)

lemma checkRateLimit_down:
  assumes "\<not> storage_up w"
  shows "checkRateLimit e w u =
    (\<lparr> allowed = True, remaining = 10 \<rparr>, w\<lparr> clock_reads := Suc (clock_reads w) \<rparr>)"
  using assms
  by (simp add: checkRateLimit_def read_clock_def rateLimit_upsert_def MAX_RUNS_PER_MINUTE_def)

lemma checkRateLimit_times_window:
  assumes "storage_up w"
    and "\<forall>k<n. take 16 (clock e (clock_reads w + k)) = W"
  shows "fst (checkRateLimit_times e w u n) =
           map (\<lambda>i. \<lparr> allowed = window_count w u W + Suc i \<le> 10,
                       remaining = 10 - (window_count w u W + Suc i) \<rparr>) [0..<n]
       \<and> snd (checkRateLimit_times e w u n) =
           w\<lparr> clock_reads := clock_reads w + n,
              rateLimits := (if n = 0 then rateLimits w
                             else (rateLimits w)((u, W) \<mapsto> window_count w u W + n)) \<rparr>"
  using assms
proof (induction n arbitrary: w)
  case 0
  show ?case by simp
next
  case (Suc n)
  let ?c = "window_count w u W"
  let ?w1 = "w\<lparr> clock_reads := Suc (clock_reads w),
               rateLimits := (rateLimits w)((u, W) \<mapsto> Suc ?c) \<rparr>"
  from Suc.prems(2) have key: "take 16 (clock e (clock_reads w)) = W" by auto
  have step: "checkRateLimit e w u = (\<lparr> allowed = Suc ?c \<le> 10, remaining = 10 - Suc ?c \<rparr>, ?w1)"
    using Suc.prems(1) key
    by (simp add: checkRateLimit_up window_count_def Let_def split: option.splits)
  have up1: "storage_up ?w1" using Suc.prems(1) by simp
  have win1: "\<forall>k<n. take 16 (clock e (clock_reads ?w1 + k)) = W"
    using Suc.prems(2) by auto
  have c1: "window_count ?w1 u W = Suc ?c" by (simp add: window_count_def)
  note IH = Suc.IH[OF up1 win1, unfolded c1]
  have "fst (checkRateLimit_times e w u (Suc n)) =
          \<lparr> allowed = Suc ?c \<le> 10, remaining = 10 - Suc ?c \<rparr> # fst (checkRateLimit_times e ?w1 u n)"
    by (simp add: step split: prod.splits)
  moreover have "snd (checkRateLimit_times e w u (Suc n)) = snd (checkRateLimit_times e ?w1 u n)"
    by (simp add: step split: prod.splits)
  moreover have "map (\<lambda>i. \<lparr> allowed = ?c + Suc i \<le> 10, remaining = 10 - (?c + Suc i) \<rparr>) [0..<Suc n]
      = \<lparr> allowed = Suc ?c \<le> 10, remaining = 10 - Suc ?c \<rparr> #
        map (\<lambda>i. \<lparr> allowed = Suc ?c + Suc i \<le> 10, remaining = 10 - (Suc ?c + Suc i) \<rparr>) [0..<n]"
  proof -
    have "[0..<Suc n] = 0 # map Suc [0..<n]"
      by (simp add: upt_conv_Cons map_Suc_upt del: upt_Suc)
    then show ?thesis by (simp only: list.map map_map o_def) simp
  qed
  ultimately show ?case using IH by (cases "n = 0") (simp_all del: upt_Suc)
qed

text \<open>
  C3. Calls of \<open>checkRateLimit\<close> by one user within one minute window, starting from a
  window without a counter, count up: the call number \<open>i + 1\<close> is allowed exactly when
  \<open>i + 1 \<le> 10\<close> and reports \<open>max 0 (10 - (i + 1))\<close> remaining, so the 10th call returns
  \<open>allowed = true, remaining = 0\<close> and the 11th \<open>allowed = false\<close>, and after \<open>n\<close>
  calls the counter of the window holds \<open>n\<close>; a call whose clock
  reading falls in another minute without a counter starts afresh (\<open>remaining = 9\<close>);
  and when the store does not answer the call is allowed (fail open).
\<close>

theorem checkRateLimit_window_counts:
  "(storage_up w \<and> rateLimits w (u, W) = None
      \<and> (\<forall>k<n. take 16 (clock e (clock_reads w + k)) = W)
     \<longrightarrow> (\<forall>i<n. fst (checkRateLimit_times e w u n) ! i =
                    \<lparr> allowed = (Suc i \<le> 10), remaining = 10 - Suc i \<rparr>)
         \<and> (0 < n \<longrightarrow> rateLimits (snd (checkRateLimit_times e w u n)) (u, W) = Some n)
         \<and> (rateLimits w (u, take 16 (clock e (clock_reads w + n))) = None
              \<and> take 16 (clock e (clock_reads w + n)) \<noteq> W
             \<longrightarrow> fst (checkRateLimit e (snd (checkRateLimit_times e w u n)) u) =
                    \<lparr> allowed = True, remaining = 9 \<rparr>))
   \<and> (\<not> storage_up w' \<longrightarrow> fst (checkRateLimit e w' u) = \<lparr> allowed = True, remaining = 10 \<rparr>)"
proof (intro conjI impI allI)
  fix i
  assume h: "storage_up w \<and> rateLimits w (u, W) = None
      \<and> (\<forall>k<n. take 16 (clock e (clock_reads w + k)) = W)" and i: "i < n"
  then have c: "window_count w u W = 0" by (simp add: window_count_def)
  from h have "fst (checkRateLimit_times e w u n) =
      map (\<lambda>i. \<lparr> allowed = Suc i \<le> 10, remaining = 10 - Suc i \<rparr>) [0..<n]"
    using checkRateLimit_times_window[of w n e W u] c by simp
  with i show "fst (checkRateLimit_times e w u n) ! i = \<lparr> allowed = (Suc i \<le> 10), remaining = 10 - Suc i \<rparr>"
    by simp
next
  assume h: "storage_up w \<and> rateLimits w (u, W) = None
      \<and> (\<forall>k<n. take 16 (clock e (clock_reads w + k)) = W)" and n: "0 < n"
  then have c: "window_count w u W = 0" by (simp add: window_count_def)
  from h n show "rateLimits (snd (checkRateLimit_times e w u n)) (u, W) = Some n"
    using checkRateLimit_times_window[of w n e W u] c by simp
next
  assume h: "storage_up w \<and> rateLimits w (u, W) = None
      \<and> (\<forall>k<n. take 16 (clock e (clock_reads w + k)) = W)"
    and f: "rateLimits w (u, take 16 (clock e (clock_reads w + n))) = None
              \<and> take 16 (clock e (clock_reads w + n)) \<noteq> W"
  let ?w1 = "snd (checkRateLimit_times e w u n)"
  from h have w1: "?w1 = w\<lparr> clock_reads := clock_reads w + n,
              rateLimits := (if n = 0 then rateLimits w
                             else (rateLimits w)((u, W) \<mapsto> window_count w u W + n)) \<rparr>"
    using checkRateLimit_times_window[of w n e W u] by simp
  show "fst (checkRateLimit e ?w1 u) = \<lparr> allowed = True, remaining = 9 \<rparr>"
  proof (cases "n = 0")
    case True
    with h f show ?thesis by (simp add: w1 checkRateLimit_up Let_def)
  next
    case False
    with h f show ?thesis by (simp add: w1 checkRateLimit_up Let_def)
  qed
next
  assume "\<not> storage_up w'"
  then show "fst (checkRateLimit e w' u) = \<lparr> allowed = True, remaining = 10 \<rparr>"
    by (simp add: checkRateLimit_down)
qed

theorem checkRateLimit_window_counts_witness:
  "storage_up (example_world 0)
   \<and> rateLimits (example_world 0) (''u1'', ''2026-01-15T12:00'') = None
   \<and> fst (checkRateLimit_times example_env (example_world 0) ''u1'' 11) ! 9 =
        \<lparr> allowed = True, remaining = 0 \<rparr>
   \<and> fst (checkRateLimit_times example_env (example_world 0) ''u1'' 11) ! 10 =
        \<lparr> allowed = False, remaining = 0 \<rparr>
   \<and> rateLimits (snd (checkRateLimit_times example_env (example_world 0) ''u1'' 11))
        (''u1'', ''2026-01-15T12:00'') = Some 11
   \<and> fst (checkRateLimit example_env
             (snd (checkRateLimit_times example_env (example_world 0) ''u1'' 11)) ''u1'') =
        \<lparr> allowed = True, remaining = 9 \<rparr>
   \<and> \<not> storage_up ((example_world 0)\<lparr> storage_up := False \<rparr>)
   \<and> fst (checkRateLimit example_env ((example_world 0)\<lparr> storage_up := False \<rparr>) ''u1'') =
        \<lparr> allowed = True, remaining = 10 \<rparr>"
  using checkRateLimit_window_counts [of "example_world 0" "''u1''" "''2026-01-15T12:00''" 11
          example_env "(example_world 0)\<lparr> storage_up := False \<rparr>"]
  by (simp add: example_world_def example_env_def)

section \<open>Properties of the test runner\<close>

lemma run_update_frame [simp]:
  "storage_up (run_update rid st f w) = storage_up w"
  "rateLimits (run_update rid st f w) = rateLimits w"
  "tests (run_update rid st f w) = tests w"
  "apiKeys (run_update rid st f w) = apiKeys w"
  "next_id (run_update rid st f w) = next_id w"
  "clock_reads (run_update rid st f w) = clock_reads w"
  "adapter_log (run_update rid st f w) = adapter_log w"
  "status_log (run_update rid st f w) = status_log w @ [(rid, st)]"
  "length (runs (run_update rid st f w)) = length (runs w)"
  by (simp_all add: run_update_def)

lemma run_create_frame [simp]:
  "fst (run_create w d) = fresh_run_id (next_id w)"
  "storage_up (snd (run_create w d)) = storage_up w"
  "rateLimits (snd (run_create w d)) = rateLimits w"
  "tests (snd (run_create w d)) = tests w"
  "apiKeys (snd (run_create w d)) = apiKeys w"
  "next_id (snd (run_create w d)) = Suc (next_id w)"
  "clock_reads (snd (run_create w d)) = clock_reads w"
  "adapter_log (snd (run_create w d)) = adapter_log w"
  "status_log (snd (run_create w d)) = status_log w @ [(fresh_run_id (next_id w), r_status d)]"
  "length (runs (snd (run_create w d))) = Suc (length (runs w))"
  by (simp_all add: run_create_def Let_def)

lemma attempt_completion_frame:
  "storage_up (snd (attempt_completion e w p m k ec js)) = storage_up w"
  "rateLimits (snd (attempt_completion e w p m k ec js)) = rateLimits w"
  "tests (snd (attempt_completion e w p m k ec js)) = tests w"
  "apiKeys (snd (attempt_completion e w p m k ec js)) = apiKeys w"
  "next_id (snd (attempt_completion e w p m k ec js)) = next_id w"
  "clock_reads (snd (attempt_completion e w p m k ec js)) = clock_reads w"
  "status_log (snd (attempt_completion e w p m k ec js)) = status_log w"
  "runs (snd (attempt_completion e w p m k ec js)) = runs w"
  by (simp_all add: attempt_completion_def Let_def split: sum.splits option.splits)

lemma executeRun_frame:
  "storage_up (snd (executeRun e w rid p m k ec js dry)) = storage_up w"
  "rateLimits (snd (executeRun e w rid p m k ec js dry)) = rateLimits w"
  "tests (snd (executeRun e w rid p m k ec js dry)) = tests w"
  "apiKeys (snd (executeRun e w rid p m k ec js dry)) = apiKeys w"
  "next_id (snd (executeRun e w rid p m k ec js dry)) = next_id w"
  "clock_reads (snd (executeRun e w rid p m k ec js dry)) = clock_reads w"
  "length (runs (snd (executeRun e w rid p m k ec js dry))) = length (runs w)"
proof -
  obtain a w2 where ac:
    "attempt_completion e (run_update rid Running (\<lambda>r. r) w) p m k ec js = (a, w2)"
    by force
  have w2: "storage_up w2 = storage_up w" "rateLimits w2 = rateLimits w" "tests w2 = tests w"
    "apiKeys w2 = apiKeys w" "next_id w2 = next_id w" "clock_reads w2 = clock_reads w"
    "runs w2 = runs (run_update rid Running (\<lambda>r. r) w)"
    using attempt_completion_frame[of e "run_update rid Running (\<lambda>r. r) w" p m k ec js] ac
    by simp_all
  show "storage_up (snd (executeRun e w rid p m k ec js dry)) = storage_up w"
    "rateLimits (snd (executeRun e w rid p m k ec js dry)) = rateLimits w"
    "tests (snd (executeRun e w rid p m k ec js dry)) = tests w"
    "apiKeys (snd (executeRun e w rid p m k ec js dry)) = apiKeys w"
    "next_id (snd (executeRun e w rid p m k ec js dry)) = next_id w"
    "clock_reads (snd (executeRun e w rid p m k ec js dry)) = clock_reads w"
    "length (runs (snd (executeRun e w rid p m k ec js dry))) = length (runs w)"
    by (cases a; simp add: executeRun_def Let_def ac w2 split: sum.splits)+
qed

lemma executeRun_dry_adapter_log:
  "adapter_log (snd (executeRun e w rid p m k ec js True)) = adapter_log w"
  by (simp add: executeRun_def Let_def split: sum.splits)



lemma executeRun_dry_raises:
  assumes "executeRun e w rid p m k ec js True = (Inl err, w')"
  shows "calculateCost (mc_provider m) (mc_model m) (estimateTokenCount p) 500 = Inl err
       \<and> status_log w' = status_log w @ [(rid, Running)]"
  using assms
  by (auto simp: executeRun_def Let_def split: sum.splits)

lemma executeRun_live_result:
  "\<exists>r w'. executeRun e w rid p m k ec js False = (Inr r, w')
       \<and> rr_id r = rid \<and> rr_provider r = mc_provider m \<and> rr_model r = mc_model m
       \<and> (rr_status r = Completed \<or> rr_status r = Failed)
       \<and> status_log w' = status_log w @ [(rid, Running), (rid, rr_status r)]"
proof -
  obtain a w2 where ac:
    "attempt_completion e (run_update rid Running (\<lambda>r. r) w) p m k ec js = (a, w2)"
    by force
  have w2: "status_log w2 = status_log w @ [(rid, Running)]"
    using attempt_completion_frame(7)[of e "run_update rid Running (\<lambda>r. r) w" p m k ec js] ac
    by simp
  show ?thesis
    by (cases a) (simp_all add: executeRun_def Let_def ac w2 result_stub_def)
qed

subsection \<open>The batch loop in a dry run\<close>

lemma recheck_dry: "c_isDryRun c \<Longrightarrow> recheck e c n w = (None, w)"
  by (simp add: recheck_def)

lemma recheck_live:
  "\<not> c_isDryRun c \<Longrightarrow>
     recheck e c n w =
       (if allowed (fst (checkRateLimit e w (c_userId c))) then None
        else Some (RateLimitExceededAfter n),
        snd (checkRateLimit e w (c_userId c)))"
  by (simp add: recheck_def split: prod.splits)

lemma run_selection_dry:
  assumes "c_isDryRun c"
  shows "run_selection e c m acc w =
     (case c_apiKeyMap c (mc_apiKeyId m) of
        None \<Rightarrow> (Inr (fst acc @ [missing_key_result m], snd acc), w)
      | Some k \<Rightarrow>
          (case executeRun e
                  (snd (run_create w (new_run (c_userId c) (Some (c_testId c)) m (c_prompt c)
                          (c_mergedVariables c) (Some (c_batchId c)) (Some (snd acc)) True)))
                  (fresh_run_id (next_id w)) (c_prompt c) m k
                  (c_expectedContains c) (c_jsonSchema c) True of
             (Inl err, w3) \<Rightarrow> (Inl err, w3)
           | (Inr result, w3) \<Rightarrow> (Inr (fst acc @ [result], Suc (snd acc)), w3)))"
  using assms
  by (simp add: run_selection_def recheck_dry split: option.splits prod.splits)
    (simp add: run_create_def Let_def)

lemma run_selection_dry_frame:
  assumes "c_isDryRun c"
  shows "rateLimits (snd (run_selection e c m acc w)) = rateLimits w"
    and "adapter_log (snd (run_selection e c m acc w)) = adapter_log w"
    and "clock_reads (snd (run_selection e c m acc w)) = clock_reads w"
proof -
  let ?w2 = "snd (run_create w (new_run (c_userId c) (Some (c_testId c)) m (c_prompt c)
                          (c_mergedVariables c) (Some (c_batchId c)) (Some (snd acc)) True))"
  let ?rid = "fresh_run_id (next_id w)"
  have f: "rateLimits (snd (executeRun e ?w2 ?rid (c_prompt c) m k (c_expectedContains c) (c_jsonSchema c) True)) = rateLimits w"
    "adapter_log (snd (executeRun e ?w2 ?rid (c_prompt c) m k (c_expectedContains c) (c_jsonSchema c) True)) = adapter_log w"
    "clock_reads (snd (executeRun e ?w2 ?rid (c_prompt c) m k (c_expectedContains c) (c_jsonSchema c) True)) = clock_reads w"
    for k
    by (simp_all add: executeRun_frame executeRun_dry_adapter_log)
  show "rateLimits (snd (run_selection e c m acc w)) = rateLimits w"
    and "adapter_log (snd (run_selection e c m acc w)) = adapter_log w"
    and "clock_reads (snd (run_selection e c m acc w)) = clock_reads w"
  proof (atomize (full), cases "c_apiKeyMap c (mc_apiKeyId m)")
    case None
    then show "rateLimits (snd (run_selection e c m acc w)) = rateLimits w \<and>
      adapter_log (snd (run_selection e c m acc w)) = adapter_log w \<and>
      clock_reads (snd (run_selection e c m acc w)) = clock_reads w"
      by (simp add: run_selection_dry[OF assms])
  next
    case (Some k)
    obtain a w3 where ex: "executeRun e ?w2 ?rid (c_prompt c) m k (c_expectedContains c)
        (c_jsonSchema c) True = (a, w3)" by force
    with f[of k] have w3: "rateLimits w3 = rateLimits w" "adapter_log w3 = adapter_log w"
      "clock_reads w3 = clock_reads w" by simp_all
    show "rateLimits (snd (run_selection e c m acc w)) = rateLimits w \<and>
      adapter_log (snd (run_selection e c m acc w)) = adapter_log w \<and>
      clock_reads (snd (run_selection e c m acc w)) = clock_reads w"
      by (cases a) (simp_all add: run_selection_dry[OF assms] Some ex w3)
  qed
qed

lemma run_selections_dry_frame:
  assumes "c_isDryRun c"
  shows "rateLimits (snd (run_selections e c ms acc w)) = rateLimits w
       \<and> adapter_log (snd (run_selections e c ms acc w)) = adapter_log w
       \<and> clock_reads (snd (run_selections e c ms acc w)) = clock_reads w"
proof (induction ms arbitrary: acc w)
  case Nil
  show ?case by simp
next
  case (Cons m ms)
  obtain a w1 where s: "run_selection e c m acc w = (a, w1)" by force
  with run_selection_dry_frame[OF assms, of e m acc w]
  have w1: "rateLimits w1 = rateLimits w" "adapter_log w1 = adapter_log w"
    "clock_reads w1 = clock_reads w" by simp_all
  show ?case
  proof (cases a)
    case (Inl err)
    with s w1 show ?thesis by simp
  next
    case (Inr acc1)
    with s w1 Cons.IH[of acc1 w1] show ?thesis by simp
  qed
qed

lemma run_selections_append:
  "run_selections e c (xs @ ys) acc w =
     (case run_selections e c xs acc w of
        (Inl err, w1) \<Rightarrow> (Inl err, w1)
      | (Inr acc1, w1) \<Rightarrow> run_selections e c ys acc1 w1)"
  by (induction xs arbitrary: acc w) (auto split: prod.splits sum.splits)

lemma run_repetitions_flat:
  "run_repetitions e c n ms acc w = run_selections e c (concat (replicate n ms)) acc w"
  by (induction n arbitrary: acc w) (auto simp: run_selections_append split: prod.splits sum.splits)

subsection \<open>Admission of dry runs\<close>

lemma checkRateLimit_frame:
  "storage_up (snd (checkRateLimit e w u)) = storage_up w"
  "tests (snd (checkRateLimit e w u)) = tests w"
  "apiKeys (snd (checkRateLimit e w u)) = apiKeys w"
  "runs (snd (checkRateLimit e w u)) = runs w"
  "next_id (snd (checkRateLimit e w u)) = next_id w"
  "status_log (snd (checkRateLimit e w u)) = status_log w"
  "adapter_log (snd (checkRateLimit e w u)) = adapter_log w"
  "clock_reads (snd (checkRateLimit e w u)) = Suc (clock_reads w)"
  by (cases "storage_up w"; simp add: checkRateLimit_up checkRateLimit_down Let_def)+

lemma batch_context_simps [simp]:
  "c_isDryRun (batch_context e w options test prompt) = opt_isDryRun options"
  "c_userId (batch_context e w options test prompt) = o_userId options"
  "c_prompt (batch_context e w options test prompt) = prompt"
  "c_apiKeyMap (batch_context e w options test prompt) =
     active_keys w (o_userId options) (remdups (map mc_apiKeyId (o_modelConfigs options)))"
  by (simp_all add: batch_context_def)

lemma runTest_limited:
  assumes "\<not> allowed (fst (checkRateLimit e w (o_userId options)))"
  shows "runTest e w options = (Inl RateLimitExceeded, snd (checkRateLimit e w (o_userId options)))"
proof -
  obtain rc w1 where ch: "checkRateLimit e w (o_userId options) = (rc, w1)" by force
  with assms show ?thesis by (simp add: runTest_def)
qed

lemma runTest_dry_rateLimits:
  assumes "opt_isDryRun options"
  shows "rateLimits (snd (runTest e w options)) =
           rateLimits (snd (checkRateLimit e w (o_userId options)))
       \<and> adapter_log (snd (runTest e w options)) = adapter_log w"
proof -
  obtain rc w1 where ch: "checkRateLimit e w (o_userId options) = (rc, w1)" by force
  then have al: "adapter_log w1 = adapter_log w"
    using checkRateLimit_frame(7)[of e w "o_userId options"] by simp
  have loop: "rateLimits (snd (run_repetitions e (batch_context e w1 options test prompt) n ms acc w1))
        = rateLimits w1
     \<and> adapter_log (snd (run_repetitions e (batch_context e w1 options test prompt) n ms acc w1))
        = adapter_log w1" for test prompt n ms acc
    using run_selections_dry_frame[of "batch_context e w1 options test prompt" e _ acc w1] assms
    by (simp add: run_repetitions_flat)
  show ?thesis
  proof (cases "tests w1 (o_testId options)")
    case None
    with ch al show ?thesis by (simp add: runTest_def)
  next
    case (Some test)
    show ?thesis
    proof (cases "substituteVariables (t_basePrompt test)
                    (js_spread (t_variables test) (opt_variables options))")
      case (Inl err)
      with ch al Some show ?thesis by (simp add: runTest_def)
    next
      case (Inr prompt)
      obtain a w2 where rr: "run_repetitions e (batch_context e w1 options test prompt)
          (nat \<lceil>opt_batchCount options\<rceil>) (o_modelConfigs options) ([], 0) w1 = (a, w2)"
        by force
      with loop[of test prompt "nat \<lceil>opt_batchCount options\<rceil>" "o_modelConfigs options" "([], 0)"]
      have "rateLimits w2 = rateLimits w1" "adapter_log w2 = adapter_log w1" by simp_all
      with ch al Some Inr rr show ?thesis
        by (cases a) (simp_all add: runTest_def)
    qed
  qed
qed

lemma case_run_create:
  "(case run_create w d of (rid, w2) \<Rightarrow> f rid w2) =
     f (fresh_run_id (next_id w)) (snd (run_create w d))"
  by (simp add: run_create_def Let_def)

lemma runAdHocPrompt_dry_frame:
  "rateLimits (snd (runAdHocPrompt e w u p m True)) = rateLimits w
   \<and> clock_reads (snd (runAdHocPrompt e w u p m True)) = clock_reads w
   \<and> fst (runAdHocPrompt e w u p m True) \<noteq> Inl RateLimitExceeded"
proof (cases "active_keys w u [mc_apiKeyId m] (mc_apiKeyId m)")
  case None
  then show ?thesis by (cases "storage_up w") (simp_all add: runAdHocPrompt_def)
next
  case (Some k)
  let ?w2 = "snd (run_create w (new_run u None m p [] None None True))"
  let ?rid = "fresh_run_id (next_id w)"
  have "fst (executeRun e ?w2 ?rid p m k None None True) \<noteq> Inl RateLimitExceeded"
    by (auto simp: executeRun_def Let_def calculateCost_def
             split: sum.splits js_prop.splits)
  then show ?thesis
    using Some
    by (cases "storage_up w") (simp_all add: runAdHocPrompt_def executeRun_frame case_run_create)
qed

text \<open>
  C10. \<open>runTest\<close> makes its admission check also for a dry run: with the store up, the
  call leaves the user's counter of the current minute incremented by one, and when that
  window already holds 10 or more the call raises the rate-limit error without creating
  a run. \<open>runAdHocPrompt\<close> with \<open>isDryRun = true\<close> neither reads the clock nor touches
  any counter, and never raises the rate-limit error.
\<close>

theorem runTest_dry_run_admission:
  "(storage_up w \<and> o_isDryRun options = Some True \<longrightarrow>
      rateLimits (snd (runTest e w options)) =
        (rateLimits w)((o_userId options, take 16 (clock e (clock_reads w))) \<mapsto>
           window_count w (o_userId options) (take 16 (clock e (clock_reads w))) + 1)
      \<and> (10 \<le> window_count w (o_userId options) (take 16 (clock e (clock_reads w))) \<longrightarrow>
            fst (runTest e w options) = Inl RateLimitExceeded
            \<and> runs (snd (runTest e w options)) = runs w))
   \<and> rateLimits (snd (runAdHocPrompt e w' u p m True)) = rateLimits w'
   \<and> clock_reads (snd (runAdHocPrompt e w' u p m True)) = clock_reads w'
   \<and> fst (runAdHocPrompt e w' u p m True) \<noteq> Inl RateLimitExceeded"
proof (intro conjI impI)
  assume h: "storage_up w \<and> o_isDryRun options = Some True"
  then have dry: "opt_isDryRun options" by (simp add: opt_isDryRun_def)
  from h show "rateLimits (snd (runTest e w options)) =
        (rateLimits w)((o_userId options, take 16 (clock e (clock_reads w))) \<mapsto>
           window_count w (o_userId options) (take 16 (clock e (clock_reads w))) + 1)"
    using runTest_dry_rateLimits[OF dry, of e w]
    by (simp add: checkRateLimit_up Let_def window_count_def split: option.splits)
next
  assume h: "storage_up w \<and> o_isDryRun options = Some True"
    and full: "10 \<le> window_count w (o_userId options) (take 16 (clock e (clock_reads w)))"
  then have "\<not> allowed (fst (checkRateLimit e w (o_userId options)))"
    by (simp add: checkRateLimit_up Let_def window_count_def split: option.splits)
  from runTest_limited[OF this]
  show "fst (runTest e w options) = Inl RateLimitExceeded"
    and "runs (snd (runTest e w options)) = runs w"
    by (simp_all add: checkRateLimit_frame)
qed (simp_all add: runAdHocPrompt_dry_frame)

theorem runTest_dry_run_admission_witness:
  "storage_up (example_world 10)
   \<and> o_isDryRun (example_options [selection ''openai'' ''gpt-4o'' ''k1''] True) = Some True
   \<and> 10 \<le> window_count (example_world 10) ''u1'' ''2026-01-15T12:00''
   \<and> fst (runTest example_env (example_world 10)
            (example_options [selection ''openai'' ''gpt-4o'' ''k1''] True)) = Inl RateLimitExceeded
   \<and> rateLimits (snd (runTest example_env (example_world 10)
            (example_options [selection ''openai'' ''gpt-4o'' ''k1''] True)))
        (''u1'', ''2026-01-15T12:00'') = Some 11
   \<and> rateLimits (snd (runAdHocPrompt example_env (example_world 10) ''u1'' ''hello''
            (selection ''openai'' ''gpt-4o'' ''k1'') True)) (''u1'', ''2026-01-15T12:00'') = Some 10
   \<and> fst (runAdHocPrompt example_env (example_world 10) ''u1'' ''hello''
            (selection ''openai'' ''gpt-4o'' ''k1'') True) \<noteq> Inl RateLimitExceeded"
  using runTest_dry_run_admission [of "example_world 10"
          "example_options [selection ''openai'' ''gpt-4o'' ''k1''] True" example_env
          "example_world 10" "''u1''" "''hello''" "selection ''openai'' ''gpt-4o'' ''k1''"]
  by (simp add: example_world_def example_options_def example_env_def window_count_def)

subsection \<open>Results of a dry run\<close>








subsection \<open>Rate limit reached in the middle of a batch\<close>

lemma run_selection_length:
  assumes "run_selection e c m acc w = (Inr acc1, w1)"
  shows "length (fst acc1) = Suc (length (fst acc))"
proof -
  obtain er w0 where rk: "recheck e c (length (fst acc)) w = (er, w0)" by force
  show ?thesis
  proof (cases "c_apiKeyMap c (mc_apiKeyId m)")
    case None
    with assms rk show ?thesis
      by (cases er) (auto simp: run_selection_def)
  next
    case (Some k)
    obtain a w3 where ex: "executeRun e
        (snd (run_create w0 (new_run (c_userId c) (Some (c_testId c)) m (c_prompt c)
                (c_mergedVariables c) (Some (c_batchId c)) (Some (snd acc)) (c_isDryRun c))))
        (fresh_run_id (next_id w0)) (c_prompt c) m k
        (c_expectedContains c) (c_jsonSchema c) (c_isDryRun c) = (a, w3)" by force
    with assms rk Some show ?thesis
      by (cases er; cases a) (auto simp: run_selection_def case_run_create)
  qed
qed

lemma run_selections_length:
  "run_selections e c ms acc w = (Inr acc1, w1) \<Longrightarrow>
     length (fst acc1) = length (fst acc) + length ms"
proof (induction ms arbitrary: acc w)
  case Nil
  then show ?case by simp
next
  case (Cons m ms)
  obtain a w2 where s: "run_selection e c m acc w = (a, w2)" by force
  show ?case
  proof (cases a)
    case (Inl err)
    with s Cons.prems show ?thesis by simp
  next
    case (Inr acc2)
    with s Cons.prems have "run_selections e c ms acc2 w2 = (Inr acc1, w1)" by simp
    from Cons.IH[OF this] run_selection_length[OF s[unfolded Inr]]
    show ?thesis by simp
  qed
qed

lemma run_selection_limited:
  assumes "\<not> c_isDryRun c" and "\<not> allowed (fst (checkRateLimit e w (c_userId c)))"
  shows "run_selection e c m acc w =
           (Inl (RateLimitExceededAfter (length (fst acc))), snd (checkRateLimit e w (c_userId c)))"
  using assms by (simp add: run_selection_def recheck_live)

lemma runTest_admitted:
  assumes "allowed (fst (checkRateLimit e w (o_userId options)))"
    and "storage_up w"
    and "tests w (o_testId options) = Some test"
    and "t_userId test = o_userId options"
    and "substituteVariables (t_basePrompt test)
           (js_spread (t_variables test) (opt_variables options)) = Inr prompt"
  shows "runTest e w options =
     (case run_selections e
             (batch_context e (snd (checkRateLimit e w (o_userId options))) options test prompt)
             (concat (replicate (nat \<lceil>opt_batchCount options\<rceil>) (o_modelConfigs options)))
             ([], 0) (snd (checkRateLimit e w (o_userId options))) of
        (Inl err, w2) \<Rightarrow> (Inl err, w2)
      | (Inr acc, w2) \<Rightarrow> (Inr (fst acc), w2))"
proof -
  obtain rc w1 where ch: "checkRateLimit e w (o_userId options) = (rc, w1)" by force
  then have "tests w1 = tests w" "storage_up w1 = storage_up w"
    using checkRateLimit_frame(1,2)[of e w "o_userId options"] by simp_all
  with assms ch show ?thesis
    by (simp add: runTest_def run_repetitions_flat)
qed

text \<open>
  C1, as stated: when the re-check before a pair fails, \<open>runTest\<close> returns the results
  produced so far. With the user's window at 8, a non-dry run of two selections is
  admitted (9), runs the first pair (10) and is refused before the second (11): the call
  raises \<open>Rate limit exceeded after 1 runs\<close> and returns no result list, while the record
  of the first pair stays in the store.
\<close>

theorem runTest_mid_batch_counterexample:
  "fst (runTest example_env (example_world 8)
          (example_options [selection ''openai'' ''gpt-4o'' ''k1'',
                            selection ''openai'' ''gpt-4'' ''k1''] False)) =
     Inl (RateLimitExceededAfter 1)
   \<and> map r_id (runs (snd (runTest example_env (example_world 8)
          (example_options [selection ''openai'' ''gpt-4o'' ''k1'',
                            selection ''openai'' ''gpt-4'' ''k1''] False)))) = [''run_0'']"
  by code_simp

text \<open>
  C1, amended: for every non-dry \<open>runTest\<close> call that was admitted and resolved its test
  and prompt, if the pairs before some pair were processed (producing one result each)
  and the re-check before that pair fails, then \<open>runTest\<close> stops there and raises the
  error \<open>Rate limit exceeded after N runs\<close>, \<open>N\<close> being the number of results produced
  so far; the result list is not returned, no later pair is attempted, and the run
  records written so far remain in the store.
\<close>

theorem runTest_mid_batch_limit:
  assumes "opt_isDryRun options = False"
    and "allowed (fst (checkRateLimit e w (o_userId options)))"
    and "storage_up w"
    and "tests w (o_testId options) = Some test"
    and "t_userId test = o_userId options"
    and "substituteVariables (t_basePrompt test)
           (js_spread (t_variables test) (opt_variables options)) = Inr prompt"
    and "concat (replicate (nat \<lceil>opt_batchCount options\<rceil>) (o_modelConfigs options))
           = processed @ m # later"
    and "run_selections e
           (batch_context e (snd (checkRateLimit e w (o_userId options))) options test prompt)
           processed ([], 0) (snd (checkRateLimit e w (o_userId options))) = (Inr acc, w1)"
    and "\<not> allowed (fst (checkRateLimit e w1 (o_userId options)))"
  shows "fst (runTest e w options) = Inl (RateLimitExceededAfter (length processed))
       \<and> length (fst acc) = length processed
       \<and> runs (snd (runTest e w options)) = runs w1
       \<and> status_log (snd (runTest e w options)) = status_log w1
       \<and> adapter_log (snd (runTest e w options)) = adapter_log w1"
proof -
  let ?w0 = "snd (checkRateLimit e w (o_userId options))"
  let ?c = "batch_context e ?w0 options test prompt"
  have len: "length (fst acc) = length processed"
    using run_selections_length[OF assms(8)] by simp
  have live: "\<not> c_isDryRun ?c" using assms(1) by simp
  have lim: "\<not> allowed (fst (checkRateLimit e w1 (c_userId ?c)))" using assms(9) by simp
  have "run_selections e ?c (processed @ m # later) ([], 0) ?w0 =
          (Inl (RateLimitExceededAfter (length (fst acc))), snd (checkRateLimit e w1 (o_userId options)))"
    using run_selection_limited[OF live lim, of m acc]
    by (simp add: run_selections_append assms(8))
  then have "runTest e w options =
      (Inl (RateLimitExceededAfter (length (fst acc))), snd (checkRateLimit e w1 (o_userId options)))"
    by (simp add: runTest_admitted[OF assms(2-6)] assms(7))
  then show ?thesis by (simp add: len checkRateLimit_frame)
qed

theorem runTest_mid_batch_limit_witness:
  "opt_isDryRun (example_options [selection ''openai'' ''gpt-4o'' ''k1'',
                                  selection ''openai'' ''gpt-4'' ''k1''] False) = False
   \<and> allowed (fst (checkRateLimit example_env (example_world 8) ''u1''))
   \<and> fst (runTest example_env (example_world 8)
            (example_options [selection ''openai'' ''gpt-4o'' ''k1'',
                              selection ''openai'' ''gpt-4'' ''k1''] False)) =
       Inl (RateLimitExceededAfter (length [selection ''openai'' ''gpt-4o'' ''k1'']))
   \<and> status_log (snd (runTest example_env (example_world 8)
            (example_options [selection ''openai'' ''gpt-4o'' ''k1'',
                              selection ''openai'' ''gpt-4'' ''k1''] False))) =
       [(''run_0'', Pending), (''run_0'', Running), (''run_0'', Completed)]"
proof -
  let ?s1 = "selection ''openai'' ''gpt-4o'' ''k1''"
  let ?s2 = "selection ''openai'' ''gpt-4'' ''k1''"
  let ?opts = "example_options [?s1, ?s2] False"
  let ?w0 = "snd (checkRateLimit example_env (example_world 8) (o_userId ?opts))"
  let ?c = "batch_context example_env ?w0 ?opts example_test ''Say hi to Bob''"
  let ?acc = "([(result_stub ''run_0'' Completed ?s1)
                  \<lparr> rr_output := Some ''hello'', rr_inputTokens := Some 12,
                     rr_outputTokens := Some 2, rr_estimatedCost := Some (Num (1 / 20000)) \<rparr>],
               1::nat)"
  let ?w1 = "snd (run_selections example_env ?c [?s1] ([], 0) ?w0)"
  have h1: "opt_isDryRun ?opts = False" by code_simp
  have h2: "allowed (fst (checkRateLimit example_env (example_world 8) (o_userId ?opts)))"
    by code_simp
  have h3: "storage_up (example_world 8)" by code_simp
  have h4: "tests (example_world 8) (o_testId ?opts) = Some example_test" by code_simp
  have h5: "t_userId example_test = o_userId ?opts" by code_simp
  have h6: "substituteVariables (t_basePrompt example_test)
      (js_spread (t_variables example_test) (opt_variables ?opts)) = Inr ''Say hi to Bob''"
    by code_simp
  have h7: "concat (replicate (nat \<lceil>opt_batchCount ?opts\<rceil>) (o_modelConfigs ?opts))
      = [?s1] @ ?s2 # []"
    by (simp add: example_options_def opt_batchCount_def)
  have "fst (run_selections example_env ?c [?s1] ([], 0) ?w0) = Inr ?acc" by code_simp
  then have h8: "run_selections example_env ?c [?s1] ([], 0) ?w0 = (Inr ?acc, ?w1)"
    by (simp add: prod_eq_iff)
  have h9: "\<not> allowed (fst (checkRateLimit example_env ?w1 (o_userId ?opts)))" by code_simp
  have log: "status_log ?w1 = [(''run_0'', Pending), (''run_0'', Running), (''run_0'', Completed)]"
    by code_simp
  have u: "o_userId ?opts = ''u1''" by (simp add: example_options_def)
  from runTest_mid_batch_limit [OF h1 h2 h3 h4 h5 h6 h7 h8 h9] h1 h2 log u
  show ?thesis by simp
qed

subsection \<open>A batch within the rate limit\<close>

lemma fresh_run_id_nonempty [simp]: "fresh_run_id n \<noteq> []"
  by (simp add: fresh_run_id_def)

lemma run_update_ids:
  assumes "\<And>r. r_id (f r) = r_id r"
  shows "map r_id (runs (run_update rid st f w)) = map r_id (runs w)"
  using assms by (simp add: run_update_def)


lemma new_run_status [simp]: "r_status (new_run u t m p v b i d) = Pending"
  by (simp add: new_run_def)

lemma executeRun_returns:
  assumes "dry \<longrightarrow> mc_provider m \<notin> set object_prototype_keys"
  shows "\<exists>r w'. executeRun e w rid p m k ec js dry = (Inr r, w')
       \<and> rr_id r = rid \<and> rr_provider r = mc_provider m \<and> rr_model r = mc_model m
       \<and> (if dry then rr_status r = DryRun else rr_status r = Completed \<or> rr_status r = Failed)
       \<and> status_log w' = status_log w @ [(rid, Running), (rid, rr_status r)]
       \<and> map r_id (runs w') = map r_id (runs w)"
proof (cases dry)
  case True
  with assms obtain c where c:
    "calculateCost (mc_provider m) (mc_model m) (estimateTokenCount p) 500 = Inr c"
    using calculateCost_total_off_prototype by blast
  with True show ?thesis
    by (simp add: executeRun_def Let_def result_stub_def run_update_ids)
next
  case False
  obtain a w2 where ac:
    "attempt_completion e (run_update rid Running (\<lambda>r. r) w) p m k ec js = (a, w2)"
    by force
  have w2: "status_log w2 = status_log w @ [(rid, Running)]"
    "runs w2 = runs (run_update rid Running (\<lambda>r. r) w)"
    using attempt_completion_frame(7,8)[of e "run_update rid Running (\<lambda>r. r) w" p m k ec js] ac
    by simp_all
  have ids: "map r_id (runs w2) = map r_id (runs w)"
    by (simp add: w2 run_update_ids)
  from False show ?thesis
    by (cases a) (simp_all add: executeRun_def Let_def ac w2(1) result_stub_def run_update_ids ids)
qed


lemma persisted_ids_simps [simp]:
  "persisted_ids [] = []"
  "persisted_ids (r # rs) = (if rr_id r = [] then [] else [rr_id r]) @ persisted_ids rs"
  by (simp_all add: persisted_ids_def)

lemma lifecycle_simps [simp]:
  "lifecycle [] = []"
  "lifecycle (r # rs) =
     (if rr_id r = [] then []
      else [(rr_id r, Pending), (rr_id r, Running), (rr_id r, rr_status r)]) @ lifecycle rs"
  by (simp_all add: lifecycle_def)

lemma missing_key_result_simps [simp]:
  "rr_id (missing_key_result m) = []"
  "rr_status (missing_key_result m) = Failed"
  "rr_errorMessage (missing_key_result m) = Some ''API key not found or inactive''"
  "rr_provider (missing_key_result m) = mc_provider m"
  "rr_model (missing_key_result m) = mc_model m"
  by (simp_all add: missing_key_result_def result_stub_def)






subsection \<open>The statuses of a run record\<close>

lemma executeRun_status_log:
  "status_log (snd (executeRun e w rid p m k ec js dry)) =
     status_log w @ (rid, Running) #
       (case fst (executeRun e w rid p m k ec js dry) of
          Inr r \<Rightarrow> [(rid, rr_status r)] | Inl err \<Rightarrow> [])
   \<and> (case fst (executeRun e w rid p m k ec js dry) of
        Inr r \<Rightarrow> rr_id r = rid
                 \<and> (if dry then rr_status r = DryRun
                     else rr_status r = Completed \<or> rr_status r = Failed)
      | Inl err \<Rightarrow> dry)"
proof (cases dry)
  case True
  then show ?thesis
    by (cases "calculateCost (mc_provider m) (mc_model m) (estimateTokenCount p) 500")
       (simp_all add: executeRun_def Let_def result_stub_def)
next
  case False
  from executeRun_returns[of dry m e w rid p k ec js] False
  show ?thesis by auto
qed

text \<open>
  C2, as stated: a dry-run execution never enters the running state. The dry run of one
  selection writes \<open>running\<close> to its record before it writes \<open>dry_run\<close>.
\<close>

theorem dry_run_status_counterexample:
  "status_log (snd (runTest example_env (example_world 0)
       (example_options [selection ''openai'' ''gpt-4o'' ''k1''] True))) =
     [(''run_0'', Pending), (''run_0'', Running), (''run_0'', DryRun)]"
  by code_simp

text \<open>
  C2, amended: every run record follows \<open>pending \<rightarrow> running \<rightarrow> {completed | failed |
  dry_run}\<close>. It is created \<open>pending\<close>; \<open>executeRun\<close> first writes \<open>running\<close>, for a dry
  run as well, and when it returns it has written the status of its result as the last
  one: \<open>dry_run\<close> for a dry run, \<open>completed\<close> or \<open>failed\<close> otherwise. \<open>executeRun\<close>
  raises only in a dry run (when the cost computation raises), and the record then stays
  \<open>running\<close>. What a dry run skips is the adapter call, not the running state.
\<close>

theorem run_record_status_sequence:
  "status_log (snd (executeRun e (snd (run_create w (new_run u t m p v b i dry)))
                      (fst (run_create w (new_run u t m p v b i dry))) p m k ec js dry)) =
     status_log w @
       (fresh_run_id (next_id w), Pending) # (fresh_run_id (next_id w), Running) #
       (case fst (executeRun e (snd (run_create w (new_run u t m p v b i dry)))
                    (fst (run_create w (new_run u t m p v b i dry))) p m k ec js dry) of
          Inr r \<Rightarrow> [(fresh_run_id (next_id w), rr_status r)]
        | Inl err \<Rightarrow> [])
   \<and> (case fst (executeRun e (snd (run_create w (new_run u t m p v b i dry)))
                   (fst (run_create w (new_run u t m p v b i dry))) p m k ec js dry) of
        Inr r \<Rightarrow> rr_id r = fresh_run_id (next_id w)
                 \<and> (if dry then rr_status r = DryRun
                     else rr_status r = Completed \<or> rr_status r = Failed)
      | Inl err \<Rightarrow> dry)
   \<and> adapter_log (snd (executeRun e (snd (run_create w (new_run u t m p v b i True)))
                      (fst (run_create w (new_run u t m p v b i True))) p m k ec js True)) =
       adapter_log w"
  using executeRun_status_log[of e "snd (run_create w (new_run u t m p v b i dry))"
          "fresh_run_id (next_id w)" p m k ec js dry]
  by (simp add: executeRun_dry_adapter_log)

section \<open>Properties of prompt resolution\<close>

lemma map_of_foldl_update:
  "map_of (foldl (\<lambda>acc kv. AList.update (fst kv) (snd kv) acc) acc xs) =
     map_of acc ++ map_of (rev xs)"
proof (induction xs arbitrary: acc)
  case Nil
  show ?case by simp
next
  case (Cons kv xs)
  have "map_of (AList.update (fst kv) (snd kv) acc) ++ map_of (rev xs) =
        map_of acc ++ (map_of [kv] ++ map_of (rev xs))"
    by (cases kv) (simp add: update_conv' map_add_assoc[symmetric] map_add_upd_left)
  then show ?case by (simp add: Cons.IH)
qed

lemma map_of_rev_distinct:
  "distinct (map fst xs) \<Longrightarrow> map_of (rev xs) = map_of xs"
proof (induction xs)
  case Nil
  show ?case by simp
next
  case (Cons x xs)
  then have none: "map_of xs (fst x) = None" by (simp add: map_of_eq_None_iff)
  from Cons have IH: "map_of (rev xs) = map_of xs" by simp
  show ?case
    by (cases x) (use none in \<open>auto simp: map_of_append IH map_add_def fun_eq_iff split: option.splits\<close>)
qed

lemma js_spread_last_write_wins:
  assumes "distinct (map fst a)" and "distinct (map fst b)"
  shows "map_of (js_spread a b) k =
           (case map_of b k of Some v \<Rightarrow> Some v | None \<Rightarrow> map_of a k)"
proof -
  have "map_of (js_spread a b) = Map.empty ++ map_of (rev (a @ b))"
    unfolding js_spread_def by (simp only: map_of_foldl_update) simp
  also have "\<dots> = map_of (rev b @ rev a)" by simp
  also have "\<dots> = map_of (rev a) ++ map_of (rev b)" by (rule map_of_append)
  also have "map_of (rev a) = map_of a" using assms(1) by (rule map_of_rev_distinct)
  also have "map_of (rev b) = map_of b" using assms(2) by (rule map_of_rev_distinct)
  finally show ?thesis by (simp add: map_add_def split: option.splits)
qed

lemma js_replace_all_no_match:
  "(\<forall>t. suffix t s \<longrightarrow> m t = None) \<Longrightarrow> js_replace_all m repl p s = s"
proof (induction s arbitrary: p)
  case Nil
  show ?case by simp
next
  case (Cons c cs)
  from Cons.prems have "m (c # cs) = None" by simp
  moreover from Cons.prems have "\<forall>t. suffix t cs \<longrightarrow> m t = None"
    by (simp add: suffix_Cons)
  ultimately show ?case using Cons.IH by simp
qed

lemma substituteVariables_no_placeholder:
  assumes "\<forall>kv\<in>set vars. \<exists>lit. regexp_literal (fst kv) = Some lit
              \<and> (\<forall>t. suffix t s \<longrightarrow> placeholder_match lit t = None)"
  shows "substituteVariables s vars = Inr s"
  using assms
proof (induction vars)
  case Nil
  show ?case by simp
next
  case (Cons kv vars)
  obtain k v where kv: "kv = (k, v)" by (cases kv)
  with Cons.prems obtain lit where "regexp_literal k = Some lit"
    "\<forall>t. suffix t s \<longrightarrow> placeholder_match lit t = None" by auto
  then have "substituteVariables s (kv # vars) = substituteVariables s vars"
    by (simp add: kv js_replace_all_no_match)
  with Cons show ?case by simp
qed

text \<open>
  C9. Stated: each placeholder is replaced by the variable's value literally.
  \<open>substituteVariables\<close> passes the value to \<open>String.prototype.replace\<close> as a
  replacement pattern, in which \<open>$$\<close> stands for a single dollar sign: with the default
  \<open>rating = unknown\<close> overridden by \<open>rating = $$$\<close>, the merged value is \<open>$$$\<close> (the
  override wins) but the prompt receives \<open>$$\<close>.
\<close>

theorem substituteVariables_dollar_not_literal:
  "js_spread [(''rating'', ''unknown'')] [(''rating'', ''$$$'')] = [(''rating'', ''$$$'')]
   \<and> substituteVariables ''Price range: {{ rating }}''
         (js_spread [(''rating'', ''unknown'')] [(''rating'', ''$$$'')]) =
       Inr ''Price range: $$''"
  by code_simp

end
